theory Spec2Isabelle
  imports Complex_Main "HOL-Library.Log_Nat"
begin

section \<open>pdf2pptx4win: PDF pages rasterised onto full-bleed slides\<close>

text \<open>
  The repository has two files. \<^verbatim>\<open>pdf2pptx.py\<close> holds the geometry resolver
  \<^verbatim>\<open>get_slide_dimensions\<close>, two per-page helpers
  (\<^verbatim>\<open>convert_pdf_to_png\<close>, \<^verbatim>\<open>convert_pdf_to_high_quality_png\<close>), the
  conversion \<^verbatim>\<open>pdf_to_pptx\<close> and the command line \<^verbatim>\<open>main\<close>.
  \<^verbatim>\<open>main.py\<close> holds an earlier \<^verbatim>\<open>pdf_to_pptx\<close> with a fixed 10 x 7.5 canvas
  and 300 DPI.

  The PDF rasteriser (PyMuPDF), the image library (Pillow), the presentation writer
  (python-pptx) and the file system are outside the repository. Their calls are kept
  as calls: each one that can raise is a field of the environment record \<open>env\<close> or of
  a page, returning an error value where the call would raise, and each one is written
  to the \<open>trace\<close> of the world it acts on.
\<close>

subsection \<open>Python values\<close>

text \<open>An exception is a value; \<open>str_error\<close> is the text that \<^verbatim>\<open>{e}\<close> formats.\<close>

datatype py_error = ZeroDivisionError | IndexError | ExternalError string

fun str_error :: "py_error \<Rightarrow> string" where
  "str_error ZeroDivisionError = ''division by zero''"
| "str_error IndexError = ''page not in document''"
| "str_error (ExternalError msg) = msg"

text \<open>Decimal text of an integer, as \<^verbatim>\<open>%d\<close> and \<^verbatim>\<open>{n}\<close> print it.\<close>

definition digit_char :: "nat \<Rightarrow> char" where
  "digit_char n = ''0123456789'' ! n"

fun str_nat :: "nat \<Rightarrow> string" where
  "str_nat n = (if n < 10 then [digit_char n] else str_nat (n div 10) @ [digit_char (n mod 10)])"

declare str_nat.simps [simp del]

definition str_int :: "int \<Rightarrow> string" where
  "str_int i = (if i < 0 then CHR ''-'' # str_nat (nat (- i)) else str_nat (nat i))"

text \<open>
  Truth value of an optional number: \<^verbatim>\<open>None\<close> and zero are falsy, every other
  number is truthy. Slide dimensions are floats that the program only passes on and
  compares with zero; they are modelled by their exact values.
\<close>

definition truthy :: "real option \<Rightarrow> bool" where
  "truthy v = (case v of None \<Rightarrow> False | Some x \<Rightarrow> x \<noteq> 0)"

subsection \<open>Geometry resolver (pdf2pptx.py, get\_slide\_dimensions)\<close>

definition ratios :: "(string \<times> real \<times> real) list" where
  "ratios =
    [(''4:3'', (10, 15 / 2)),
     (''16:9'', (13333 / 1000, 15 / 2)),
     (''16:10'', (13, 8125 / 1000)),
     (''a4'', (1169 / 100, 827 / 100)),
     (''letter'', (11, 17 / 2)),
     (''wide'', (13333 / 1000, 15 / 2)),
     (''standard'', (10, 15 / 2)),
     (''square'', (10, 10)),
     (''portrait'', (15 / 2, 10))]"

text \<open>\<^verbatim>\<open>ratios.get(aspect_ratio, ratios["4:3"])\<close>; the key \<^verbatim>\<open>"4:3"\<close> is in the table.\<close>

definition get_slide_dimensions :: "string \<Rightarrow> real option \<Rightarrow> real option \<Rightarrow> real \<times> real" where
  "get_slide_dimensions aspect_ratio custom_width custom_height =
     (if aspect_ratio = ''custom'' \<and> truthy custom_width \<and> truthy custom_height
      then (the custom_width, the custom_height)
      else (case map_of ratios aspect_ratio of
              Some dims \<Rightarrow> dims
            | None \<Rightarrow> the (map_of ratios ''4:3'')))"

text \<open>The choices that the command line accepts for \<^verbatim>\<open>--aspect\<close>.\<close>

definition aspect_choices :: "string list" where
  "aspect_choices =
    [''4:3'', ''16:9'', ''16:10'', ''a4'', ''letter'', ''wide'', ''standard'', ''square'',
     ''portrait'', ''custom'']"

subsection \<open>Double-precision arithmetic\<close>

text \<open>
  \<^verbatim>\<open>target_height / img.height\<close> and \<^verbatim>\<open>img.width * ratio\<close> are float operations:
  each returns the exact result rounded to the nearest number with a 53-bit significand,
  ties to the even significand. \<open>fl\<close> is that rounding, on exact rationals; the
  exponent range of a double (overflow, subnormal numbers) is not modelled, and is not
  reached by image dimensions. \<open>ilog2 x\<close> is the exponent of the leading bit of a
  positive \<open>x\<close>.
\<close>

definition ilog2 :: "rat \<Rightarrow> int" where
  "ilog2 x =
     (let (a, b) = quotient_of x; k = bitlen a - bitlen b
      in if 2 powi k \<le> x then k else k - 1)"

definition round_half_even :: "rat \<Rightarrow> int" where
  "round_half_even x =
     (let n = \<lfloor>x\<rfloor>; r = x - of_int n
      in if r < 1 / 2 then n else if 1 / 2 < r then n + 1 else if even n then n else n + 1)"

definition fl :: "rat \<Rightarrow> rat" where
  "fl x =
     (if x = 0 then 0
      else let e = ilog2 \<bar>x\<bar> - 52 in of_int (round_half_even (x / 2 powi e)) * 2 powi e)"

text \<open>\<^verbatim>\<open>int(x)\<close> of a float: truncation toward zero.\<close>

definition py_int :: "rat \<Rightarrow> int" where
  "py_int x = (if 0 \<le> x then \<lfloor>x\<rfloor> else \<lceil>x\<rceil>)"

subsection \<open>Pages, slides and the outside world\<close>

record pixmap =
  pix_width :: nat
  pix_height :: nat

text \<open>A page is what rendering it at a DPI gives: a pixmap, or the exception raised.\<close>

datatype page = Page (get_pixmap: "int option \<Rightarrow> py_error + pixmap")

text \<open>\<^verbatim>\<open>pdf_doc[page_num]\<close>: pages \<open>-n\<close> to \<open>n - 1\<close> of an \<open>n\<close>-page document.\<close>

definition doc_getitem :: "page list \<Rightarrow> int \<Rightarrow> py_error + page" where
  "doc_getitem pages i =
     (let n = int (length pages)
      in if - n \<le> i \<and> i < n then Inr (pages ! nat (if i < 0 then n + i else i))
         else Inl IndexError)"

datatype length = Inches real

record picture =
  image_file :: string
  image_size :: "int \<times> int"
  pic_left :: length
  pic_top :: length
  pic_width :: length
  pic_height :: length

record slide =
  layout :: nat
  shapes :: "picture list"

record presentation =
  slide_width :: length
  slide_height :: length
  slides :: "slide list"

text \<open>\<^verbatim>\<open>Presentation()\<close>: the default template, without slides.\<close>

definition Presentation :: presentation where
  "Presentation = \<lparr>slide_width = Inches 10, slide_height = Inches (15 / 2), slides = []\<rparr>"

text \<open>Calls that leave the program: the file system and the rasteriser.\<close>

datatype call =
    PathExists string
  | FitzOpen string
  | GetPixmap int "int option"
  | MkDTemp nat
  | PngSave string
  | PptxSave string
  | RmTree nat

text \<open>
  The world a run acts on: the chunks written to standard output, the calls made, the
  scratch directories that exist (number and file names) and the presentation files
  written, each oldest first.
\<close>

record world =
  stdout :: "string list"
  trace :: "call list"
  tmp_dirs :: "(nat \<times> string list) list"
  pptx_files :: "(string \<times> presentation) list"

text \<open>
  What the libraries answer. \<open>path_name\<close>, \<open>with_suffix\<close> and \<open>path_join\<close> are
  \<^verbatim>\<open>Path.name\<close>, \<^verbatim>\<open>Path.with_suffix\<close> and \<^verbatim>\<open>os.path.join\<close> of the platform;
  the \<open>_error\<close> fields give the exception a call raises, \<open>None\<close> when it succeeds.
\<close>

record env =
  path_exists :: "string \<Rightarrow> bool"
  path_name :: "string \<Rightarrow> string"
  with_suffix :: "string \<Rightarrow> string \<Rightarrow> string"
  path_join :: "string \<Rightarrow> string \<Rightarrow> string"
  fitz_open :: "string \<Rightarrow> py_error + page list"
  sharpen_error :: "nat \<times> nat \<Rightarrow> py_error option"
  resize_error :: "nat \<times> nat \<Rightarrow> int \<times> int \<Rightarrow> py_error option"
  png_save_error :: "string \<Rightarrow> py_error option"
  pptx_save_error :: "string \<Rightarrow> py_error option"

definition write_stdout :: "string \<Rightarrow> world \<Rightarrow> world" where
  "write_stdout s w = w\<lparr>stdout := stdout w @ [s]\<rparr>"

definition print :: "string \<Rightarrow> world \<Rightarrow> world" where
  "print s w = write_stdout (s @ [CHR 0x0A]) w"

definition called :: "call \<Rightarrow> world \<Rightarrow> world" where
  "called c w = w\<lparr>trace := trace w @ [c]\<rparr>"

subsection \<open>Scratch directories (tempfile.TemporaryDirectory)\<close>

text \<open>
  \<^verbatim>\<open>with tempfile.TemporaryDirectory() as temp_dir: body\<close> creates a directory
  under a name not in use, runs the body, and removes the directory with its files when
  the body returns and when it raises.
\<close>

definition fresh_tmp :: "world \<Rightarrow> nat" where
  "fresh_tmp w = Suc (fold max (map fst (tmp_dirs w)) 0)"

definition mkdtemp :: "nat \<Rightarrow> world \<Rightarrow> world" where
  "mkdtemp d w = (called (MkDTemp d) w)\<lparr>tmp_dirs := (d, []) # tmp_dirs w\<rparr>"

definition rmtree :: "nat \<Rightarrow> world \<Rightarrow> world" where
  "rmtree d w = (called (RmTree d) w)\<lparr>tmp_dirs := filter (\<lambda>(k, fs). k \<noteq> d) (tmp_dirs w)\<rparr>"

definition tmp_write :: "nat \<Rightarrow> string \<Rightarrow> world \<Rightarrow> world" where
  "tmp_write d name w =
     w\<lparr>tmp_dirs := map (\<lambda>(k, fs). if k = d then (k, fs @ [name]) else (k, fs)) (tmp_dirs w)\<rparr>"

definition temp_path :: "nat \<Rightarrow> string \<Rightarrow> string" where
  "temp_path d name = ''tmp'' @ str_nat d @ ''/'' @ name"

definition with_temp_dir :: "(nat \<Rightarrow> world \<Rightarrow> 'a \<times> world) \<Rightarrow> world \<Rightarrow> 'a \<times> world" where
  "with_temp_dir body w =
     (let d = fresh_tmp w; (r, w') = body d (mkdtemp d w) in (r, rmtree d w'))"

subsection \<open>The per-page step of the conversion loop\<close>

text \<open>
  \<^verbatim>\<open>target_height = 1024; ratio = target_height / img.height;
  new_width = int(img.width * ratio)\<close>, the size that \<^verbatim>\<open>img.resize\<close> is asked for.
  A height of zero raises \<^verbatim>\<open>ZeroDivisionError\<close>.
\<close>

definition resized_size :: "nat \<times> nat \<Rightarrow> py_error + int \<times> int" where
  "resized_size img =
     (let target_height = 1024 :: nat
      in if snd img = 0 then Inl ZeroDivisionError
         else let ratio = fl (of_nat target_height / of_nat (snd img));
                  new_width = py_int (fl (fl (of_nat (fst img)) * ratio))
              in Inr (new_width, int target_height))"

text \<open>
  One iteration of the loop of \<^verbatim>\<open>pdf_to_pptx\<close>, in both files: progress line,
  render, resize, save to the scratch directory, new slide with the picture over the
  whole canvas. \<open>shown\<close> is the page number of the progress line. An exception ends the
  iteration where it is raised: the loop has no handler.
\<close>

definition page_to_slide ::
  "env \<Rightarrow> int option \<Rightarrow> nat \<Rightarrow> nat \<Rightarrow> nat \<Rightarrow> nat \<Rightarrow> page \<Rightarrow> presentation \<Rightarrow> world
     \<Rightarrow> (py_error + presentation) \<times> world" where
  "page_to_slide E dpi temp_dir n_pages shown i page prs w0 =
     (let w1 = write_stdout
                (CHR 0x0D # ''Processing: Page '' @ str_nat shown @ ''/'' @ str_nat n_pages) w0;
          w2 = called (GetPixmap (int i) dpi) w1
      in case get_pixmap page dpi of
           Inl e \<Rightarrow> (Inl e, w2)
         | Inr pix \<Rightarrow>
             (let img = (pix_width pix, pix_height pix)
              in case resized_size img of
                   Inl e \<Rightarrow> (Inl e, w2)
                 | Inr new_size \<Rightarrow>
                     (case resize_error E img new_size of
                        Some e \<Rightarrow> (Inl e, w2)
                      | None \<Rightarrow>
                          (let name = ''slide-'' @ str_nat i @ ''.png'';
                               img_path = temp_path temp_dir name;
                               w3 = called (PngSave img_path) w2
                           in case png_save_error E img_path of
                                Some e \<Rightarrow> (Inl e, w3)
                              | None \<Rightarrow>
                                  (let w4 = tmp_write temp_dir name w3;
                                       pic = \<lparr>image_file = img_path, image_size = new_size,
                                              pic_left = Inches 0, pic_top = Inches 0,
                                              pic_width = slide_width prs,
                                              pic_height = slide_height prs\<rparr>;
                                       slide = \<lparr>layout = 6, shapes = [pic]\<rparr>
                                   in (Inr (prs\<lparr>slides := slides prs @ [slide]\<rparr>), w4))))))"

text \<open>\<^verbatim>\<open>for i, page in enumerate(...)\<close>: the pages in order, until one raises.\<close>

fun process_pages ::
  "env \<Rightarrow> int option \<Rightarrow> nat \<Rightarrow> nat \<Rightarrow> (nat \<Rightarrow> nat) \<Rightarrow> (nat \<times> page) list \<Rightarrow> presentation
     \<Rightarrow> world \<Rightarrow> (py_error + presentation) \<times> world" where
  "process_pages E dpi temp_dir n_pages shown [] prs w = (Inr prs, w)"
| "process_pages E dpi temp_dir n_pages shown ((i, page) # rest) prs w =
     (case page_to_slide E dpi temp_dir n_pages (shown i) i page prs w of
        (Inl e, w') \<Rightarrow> (Inl e, w')
      | (Inr prs', w') \<Rightarrow> process_pages E dpi temp_dir n_pages shown rest prs' w')"

text \<open>
  The body of the \<^verbatim>\<open>with\<close> block, which the two files share line by line but
  for the canvas, the DPI and the number in the progress line: open the document, set
  the canvas, run the loop, save the presentation.
\<close>

definition convert_in ::
  "env \<Rightarrow> string \<Rightarrow> string \<Rightarrow> length \<times> length \<Rightarrow> int option \<Rightarrow> (nat \<Rightarrow> nat) \<Rightarrow> nat \<Rightarrow> world
     \<Rightarrow> (py_error + unit) \<times> world" where
  "convert_in E pdf_path output_path canvas dpi shown temp_dir w0 =
     (let w1 = print (''Processing: '' @ path_name E pdf_path) w0;
          w2 = called (FitzOpen pdf_path) w1
      in case fitz_open E pdf_path of
           Inl e \<Rightarrow> (Inl e, w2)
         | Inr pdf_doc \<Rightarrow>
             (let w3 = print (''PDF pages: '' @ str_nat (length pdf_doc)) w2;
                  prs = Presentation\<lparr>slide_width := fst canvas, slide_height := snd canvas\<rparr>
              in case process_pages E dpi temp_dir (length pdf_doc) shown
                        (enumerate 0 pdf_doc) prs w3 of
                   (Inl e, w4) \<Rightarrow> (Inl e, w4)
                 | (Inr prs', w4) \<Rightarrow>
                     (let w5 = called (PptxSave output_path) w4
                      in case pptx_save_error E output_path of
                           Some e \<Rightarrow> (Inl e, w5)
                         | None \<Rightarrow>
                             (Inr (),
                              print ''Conversion completed!''
                                (print (''Output file: '' @ output_path)
                                  (print [CHR 0x0D]
                                    (w5\<lparr>pptx_files := pptx_files w5 @ [(output_path, prs')]\<rparr>)))))))"

text \<open>
  The \<^verbatim>\<open>with\<close> block and the \<^verbatim>\<open>return True\<close> after it: an exception of the body
  leaves the function once the scratch directory is removed.
\<close>

definition convert_scoped ::
  "env \<Rightarrow> string \<Rightarrow> string \<Rightarrow> length \<times> length \<Rightarrow> int option \<Rightarrow> (nat \<Rightarrow> nat) \<Rightarrow> world
     \<Rightarrow> (py_error + bool) \<times> world" where
  "convert_scoped E pdf_path output_path canvas dpi shown w0 =
     (case with_temp_dir (convert_in E pdf_path output_path canvas dpi shown) w0 of
        (Inl e, w1) \<Rightarrow> (Inl e, w1)
      | (Inr u, w1) \<Rightarrow> (Inr True, w1))"

subsection \<open>pdf2pptx.py: pdf\_to\_pptx\<close>

definition quality_settings :: "(string \<times> int) list" where
  "quality_settings = [(''low'', 150), (''medium'', 300), (''high'', 600), (''ultra'', 1200)]"

definition pdf_to_pptx ::
  "env \<Rightarrow> string \<Rightarrow> string option \<Rightarrow> string \<Rightarrow> real option \<Rightarrow> real option \<Rightarrow> string
     \<Rightarrow> int option \<Rightarrow> string \<Rightarrow> world \<Rightarrow> (py_error + bool) \<times> world" where
  "pdf_to_pptx E pdf_path output_path aspect_ratio custom_width custom_height quality dpi
      method w0 =
     (let w1 = called (PathExists pdf_path) w0
      in if \<not> path_exists E pdf_path
         then (Inr False, print (''Error: File '' @ pdf_path @ '' not found.'') w1)
         else
           (let output_path' =
                  (case output_path of
                     Some p \<Rightarrow> if p \<noteq> [] then p else with_suffix E pdf_path ''.pptx''
                   | None \<Rightarrow> with_suffix E pdf_path ''.pptx'');
                (width_inches, height_inches) =
                  get_slide_dimensions aspect_ratio custom_width custom_height;
                dpi' = (if dpi = None \<and> map_of quality_settings quality \<noteq> None
                        then Some (case map_of quality_settings quality of
                                     Some v \<Rightarrow> v | None \<Rightarrow> 600)
                        else dpi)
            in convert_scoped E pdf_path output_path'
                 (Inches width_inches, Inches height_inches) dpi' Suc w1))"

definition pdf_to_pptx_simple ::
  "env \<Rightarrow> string \<Rightarrow> string option \<Rightarrow> int option \<Rightarrow> world \<Rightarrow> (py_error + bool) \<times> world" where
  "pdf_to_pptx_simple E pdf_path output_path dpi w =
     pdf_to_pptx E pdf_path output_path ''4:3'' None None ''high'' dpi ''png'' w"

subsection \<open>main.py: pdf\_to\_pptx\<close>

text \<open>
  The earlier conversion: canvas \<^verbatim>\<open>Inches(10)\<close> by \<^verbatim>\<open>Inches(7.5)\<close>, 300 DPI, the
  output beside the input, and a progress line that counts from zero.
\<close>

definition main_py_pdf_to_pptx :: "env \<Rightarrow> string \<Rightarrow> world \<Rightarrow> (py_error + bool) \<times> world" where
  "main_py_pdf_to_pptx E pdf_path w0 =
     (let w1 = called (PathExists pdf_path) w0
      in if \<not> path_exists E pdf_path
         then (Inr False, print (''Error: File '' @ pdf_path @ '' not found.'') w1)
         else
           (let output_path = with_suffix E pdf_path ''.pptx''
            in convert_scoped E pdf_path output_path (Inches 10, Inches (15 / 2))
                 (Some 300) (\<lambda>i. i) w1))"

subsection \<open>pdf2pptx.py: the per-page helpers\<close>

text \<open>
  The \<^verbatim>\<open>try\<close> block of \<^verbatim>\<open>convert_pdf_to_png\<close>: open the document, take the page,
  render it, save the pixmap. Its value is the path, or the exception raised.
\<close>

definition convert_pdf_to_png_try ::
  "env \<Rightarrow> string \<Rightarrow> string \<Rightarrow> int \<Rightarrow> int option \<Rightarrow> world \<Rightarrow> (py_error + string) \<times> world" where
  "convert_pdf_to_png_try E pdf_path output_path page_num dpi w0 =
     (let w1 = called (FitzOpen pdf_path) w0
      in case fitz_open E pdf_path of
           Inl e \<Rightarrow> (Inl e, w1)
         | Inr pdf_doc \<Rightarrow>
             (case doc_getitem pdf_doc page_num of
                Inl e \<Rightarrow> (Inl e, w1)
              | Inr page \<Rightarrow>
                  (let w2 = called (GetPixmap page_num dpi) w1
                   in case get_pixmap page dpi of
                        Inl e \<Rightarrow> (Inl e, w2)
                      | Inr pix \<Rightarrow>
                          (let w3 = called (PngSave output_path) w2
                           in case png_save_error E output_path of
                                Some e \<Rightarrow> (Inl e, w3)
                              | None \<Rightarrow> (Inr output_path, w3)))))"

text \<open>
  The whole function: the path is built before the \<^verbatim>\<open>try\<close>; the handler prints the
  page number plus one and returns \<^verbatim>\<open>None\<close>.
\<close>

definition convert_pdf_to_png ::
  "env \<Rightarrow> string \<Rightarrow> string \<Rightarrow> int \<Rightarrow> int option \<Rightarrow> world
     \<Rightarrow> (py_error + string option) \<times> world" where
  "convert_pdf_to_png E pdf_path output_dir page_num dpi w0 =
     (let output_path = path_join E output_dir (''slide-'' @ str_int page_num @ ''.png'')
      in case convert_pdf_to_png_try E pdf_path output_path page_num dpi w0 of
           (Inr p, w1) \<Rightarrow> (Inr (Some p), w1)
         | (Inl e, w1) \<Rightarrow>
             (Inr None,
              print (''Error converting page '' @ str_int (page_num + 1) @ '' to PNG: ''
                       @ str_error e) w1))"



subsection \<open>pdf2pptx.py: the command line\<close>

text \<open>The parsed arguments; an option that was not given is \<open>None\<close>.\<close>

record args =
  input_pdf :: string
  output_file :: "string option"
  aspect :: string
  width :: "real option"
  height :: "real option"
  quality :: string
  dpi :: "int option"
  conv_method :: string
  list_aspects :: bool
  simple :: bool

definition aspects_listing :: "string list" where
  "aspects_listing =
    [''Available aspect ratios:'',
     ''  4:3      - Standard 4:3 (10.00 x 7.50 inches)'',
     ''  16:9     - Widescreen 16:9 (13.33 x 7.50 inches)'',
     ''  16:10    - 16:10 (13.00 x 8.125 inches)'',
     ''  a4       - A4 paper size (11.69 x 8.27 inches)'',
     ''  letter   - Letter paper size (11.00 x 8.50 inches)'',
     ''  wide     - Alias for 16:9'',
     ''  standard - Alias for 4:3'',
     ''  square   - Square 1:1 (10.00 x 10.00 inches)'',
     ''  portrait - Portrait orientation (7.50 x 10.00 inches)'',
     ''  custom   - Custom dimensions (requires --width and --height)'']"

text \<open>
  \<^verbatim>\<open>main\<close> after \<^verbatim>\<open>parse_args\<close>. \<open>Inr code\<close> is \<^verbatim>\<open>sys.exit(code)\<close>; \<open>Inl e\<close> is
  an exception that nothing caught, on which the interpreter exits with status 1.
\<close>

definition main :: "env \<Rightarrow> args \<Rightarrow> world \<Rightarrow> (py_error + int) \<times> world" where
  "main E a w0 =
     (if list_aspects a then (Inr 0, fold print aspects_listing w0)
      else if aspect a = ''custom'' \<and> (width a = None \<or> height a = None)
      then (Inr 1,
            print ''Error: Custom aspect ratio requires both --width and --height arguments.'' w0)
      else if aspect a = ''custom'' \<and> (the (width a) \<le> 0 \<or> the (height a) \<le> 0)
      then (Inr 1, print ''Error: Width and height must be positive numbers.'' w0)
      else
        (let w1 = called (PathExists (input_pdf a)) w0
         in if \<not> path_exists E (input_pdf a)
            then (Inr 1,
                  print (''Error: Input file '' @ [CHR 0x27] @ input_pdf a @ [CHR 0x27]
                           @ '' not found.'') w1)
            else
              (case (if simple a
                     then pdf_to_pptx_simple E (input_pdf a) (output_file a) (Some 300)
                            (print ''Running in simple mode (4:3, 300 DPI)...'' w1)
                     else pdf_to_pptx E (input_pdf a) (output_file a) (aspect a) (width a)
                            (height a) (quality a) (dpi a) (conv_method a) w1) of
                 (Inl e, w2) \<Rightarrow> (Inl e, w2)
               | (Inr success, w2) \<Rightarrow> (Inr (if success then 0 else 1), w2))))"

definition exit_status :: "py_error + int \<Rightarrow> int" where
  "exit_status r = (case r of Inl e \<Rightarrow> 1 | Inr code \<Rightarrow> code)"

subsection \<open>Observations on a run and sample inputs\<close>

text \<open>The DPI of every render call of a trace, in order.\<close>

fun rendered_dpis :: "call list \<Rightarrow> int option list" where
  "rendered_dpis [] = []"
| "rendered_dpis (GetPixmap i d # cs) = d # rendered_dpis cs"
| "rendered_dpis (c # cs) = rendered_dpis cs"

text \<open>The size a page has on its slide's picture: its pixmap at the DPI, resized.\<close>

definition page_image_size :: "int option \<Rightarrow> page \<Rightarrow> int \<times> int" where
  "page_image_size d page =
     (case get_pixmap page d of
        Inr pix \<Rightarrow> (case resized_size (pix_width pix, pix_height pix) of
                     Inr new_size \<Rightarrow> new_size | Inl e \<Rightarrow> (0, 0))
      | Inl e \<Rightarrow> (0, 0))"

text \<open>
  A page is fine for an environment when it renders to a pixmap of non-zero height and
  the image library accepts the resize.
\<close>

definition page_ok :: "env \<Rightarrow> int option \<Rightarrow> page \<Rightarrow> bool" where
  "page_ok E d page =
     (case get_pixmap page d of
        Inl e \<Rightarrow> False
      | Inr pix \<Rightarrow>
          0 < pix_height pix
          \<and> resize_error E (pix_width pix, pix_height pix) (page_image_size d page) = None)"

text \<open>
  The slide of page \<open>i\<close>: blank layout 6 and one picture, the page's image from the
  scratch directory, at offset (0, 0) and of the size of the canvas.
\<close>

definition slide_of :: "nat \<Rightarrow> int option \<Rightarrow> length \<times> length \<Rightarrow> nat \<times> page \<Rightarrow> slide" where
  "slide_of temp_dir d canvas ip =
     \<lparr>layout = 6,
      shapes = [\<lparr>image_file = temp_path temp_dir (''slide-'' @ str_nat (fst ip) @ ''.png''),
                 image_size = page_image_size d (snd ip),
                 pic_left = Inches 0, pic_top = Inches 0,
                 pic_width = fst canvas, pic_height = snd canvas\<rparr>]\<rparr>"

text \<open>
  Sample inputs: a world where nothing has happened, a page that renders to 1536 x 2048
  pixels, a page that renders to 595 x 842 pixels, a page whose rendering raises, a file system that holds \<^verbatim>\<open>deck.pdf\<close> with
  the given pages and libraries that succeed, and the arguments of
  \<^verbatim>\<open>pdf2pptx.py deck.pdf\<close>.
\<close>

definition blank_world :: world where
  "blank_world = \<lparr>stdout = [], trace = [], tmp_dirs = [], pptx_files = []\<rparr>"

definition good_page :: page where
  "good_page = Page (\<lambda>d. Inr \<lparr>pix_width = 1536, pix_height = 2048\<rparr>)"

definition a4_page :: page where
  "a4_page = Page (\<lambda>d. Inr \<lparr>pix_width = 595, pix_height = 842\<rparr>)"

definition bad_page :: page where
  "bad_page = Page (\<lambda>d. Inl (ExternalError ''cannot render page''))"

definition deck_env :: "page list \<Rightarrow> env" where
  "deck_env pages =
     \<lparr>path_exists = (\<lambda>p. p = ''deck.pdf''),
      path_name = (\<lambda>p. p),
      with_suffix = (\<lambda>p s. ''deck'' @ s),
      path_join = (\<lambda>d f. d @ ''/'' @ f),
      fitz_open = (\<lambda>p. if p = ''deck.pdf'' then Inr pages
                        else Inl (ExternalError ''cannot open file'')),
      sharpen_error = (\<lambda>img. None),
      resize_error = (\<lambda>img new_size. None),
      png_save_error = (\<lambda>p. None),
      pptx_save_error = (\<lambda>p. None)\<rparr>"

definition deck_args :: args where
  "deck_args =
     \<lparr>input_pdf = ''deck.pdf'', output_file = None, aspect = ''4:3'', width = None,
      height = None, quality = ''high'', dpi = None, conv_method = ''auto'',
      list_aspects = False, simple = False\<rparr>"

section \<open>Properties\<close>

subsection \<open>Geometry resolver\<close>

text \<open>
  Claim C3, as amended. For a keyword outside the enumerated set the resolver returns
  the 4:3 pair, which is 10.0 x 7.5 (the claim says 9.0 x 7.5), and raises nothing:
  it is a total function. For each of the nine table keywords it returns that keyword's
  fixed pair whatever the custom values are, and for \<^verbatim>\<open>custom\<close> with both values
  truthy it returns those values.
\<close>

theorem get_slide_dimensions_fallback:
  "(aspect_ratio \<notin> set aspect_choices \<longrightarrow>
      get_slide_dimensions aspect_ratio cw ch = (10, 15 / 2))
   \<and> get_slide_dimensions ''4:3'' cw ch = (10, 15 / 2)
   \<and> get_slide_dimensions ''16:9'' cw ch = (13333 / 1000, 15 / 2)
   \<and> get_slide_dimensions ''16:10'' cw ch = (13, 8125 / 1000)
   \<and> get_slide_dimensions ''a4'' cw ch = (1169 / 100, 827 / 100)
   \<and> get_slide_dimensions ''letter'' cw ch = (11, 17 / 2)
   \<and> get_slide_dimensions ''wide'' cw ch = (13333 / 1000, 15 / 2)
   \<and> get_slide_dimensions ''standard'' cw ch = (10, 15 / 2)
   \<and> get_slide_dimensions ''square'' cw ch = (10, 10)
   \<and> get_slide_dimensions ''portrait'' cw ch = (15 / 2, 10)
   \<and> (truthy cw \<and> truthy ch \<longrightarrow> get_slide_dimensions ''custom'' cw ch = (the cw, the ch))"
  by (simp add: get_slide_dimensions_def ratios_def aspect_choices_def)

theorem get_slide_dimensions_fallback_witness:
  "''3:2'' \<notin> set aspect_choices
   \<and> get_slide_dimensions ''3:2'' (Some 16) (Some 9) = (10, 15 / 2)
   \<and> truthy (Some 16) \<and> truthy (Some 9)
   \<and> get_slide_dimensions ''custom'' (Some 16) (Some 9) = (16, 9)"
  using get_slide_dimensions_fallback [of "''3:2''" "Some 16" "Some 9"]
  by (simp add: aspect_choices_def truthy_def)

text \<open>
  Claim C3 as stated fails: for the keyword \<^verbatim>\<open>3:2\<close>, which is not in the set, the
  resolver returns (10, 7.5) and not (9, 7.5).
\<close>

theorem get_slide_dimensions_fallback_not_9:
  "''3:2'' \<notin> set aspect_choices
   \<and> get_slide_dimensions ''3:2'' None None = (10, 15 / 2)
   \<and> get_slide_dimensions ''3:2'' None None \<noteq> (9, 15 / 2)"
  by (simp add: get_slide_dimensions_def ratios_def aspect_choices_def truthy_def)

text \<open>
  Claim C9. With \<^verbatim>\<open>aspect_ratio="custom"\<close> and a custom width or height that is
  \<^verbatim>\<open>None\<close> or zero, the resolver returns the 4:3 pair (10.0, 7.5) and not the custom
  values; being a total function, it raises nothing.
\<close>

theorem get_slide_dimensions_custom_falsy:
  "cw = None \<or> cw = Some 0 \<or> ch = None \<or> ch = Some 0 \<Longrightarrow>
   get_slide_dimensions ''custom'' cw ch = (10, 15 / 2)"
  by (auto simp add: get_slide_dimensions_def ratios_def truthy_def)

theorem get_slide_dimensions_custom_falsy_witness:
  "get_slide_dimensions ''custom'' (Some 0) (Some 5) = (10, 15 / 2)
   \<and> get_slide_dimensions ''custom'' (Some 12) None = (10, 15 / 2)"
  using get_slide_dimensions_custom_falsy [of "Some 0" "Some 5"]
    get_slide_dimensions_custom_falsy [of "Some 12" None]
  by simp

subsection \<open>The per-page helpers\<close>


subsection \<open>Lemmas on the conversion loop\<close>

lemma rendered_dpis_append: "rendered_dpis (xs @ ys) = rendered_dpis xs @ rendered_dpis ys"
  by (induction xs rule: rendered_dpis.induct) simp_all

lemma fold_max_ge: "a \<le> fold max xs (a::nat)"
proof (induction xs arbitrary: a)
  case Nil
  show ?case by simp
next
  case (Cons x xs)
  have "a \<le> max x a" by simp
  also have "\<dots> \<le> fold max xs (max x a)" by (rule Cons.IH)
  finally show ?case by simp
qed

lemma fold_max_mem: "x \<in> set xs \<Longrightarrow> x \<le> fold max xs (a::nat)"
proof (induction xs arbitrary: a)
  case Nil
  then show ?case by simp
next
  case (Cons y ys)
  show ?case
  proof (cases "x = y")
    case True
    have "x \<le> max y a" using True by simp
    also have "\<dots> \<le> fold max ys (max y a)" by (rule fold_max_ge)
    finally show ?thesis by simp
  next
    case False
    with Cons.prems have "x \<in> set ys" by simp
    then show ?thesis using Cons.IH by simp
  qed
qed

lemma fresh_tmp_fresh: "fresh_tmp w \<notin> fst ` set (tmp_dirs w)"
proof
  assume "fresh_tmp w \<in> fst ` set (tmp_dirs w)"
  then have "fresh_tmp w \<in> set (map fst (tmp_dirs w))" by simp
  then have "fresh_tmp w \<le> fold max (map fst (tmp_dirs w)) 0" by (rule fold_max_mem)
  then show False by (simp add: fresh_tmp_def)
qed

lemma filter_fresh: "d \<notin> fst ` set ds \<Longrightarrow> filter (\<lambda>(k, fs). k \<noteq> d) ds = ds"
  by (induction ds) auto

lemma filter_tmp_write:
  "filter (\<lambda>(k, fs). k \<noteq> d) (map (\<lambda>(k, fs). if k = d then (k, fs @ [name]) else (k, fs)) ds)
     = filter (\<lambda>(k, fs). k \<noteq> d) ds"
  by (induction ds) auto

text \<open>Frame of one iteration\<close>

lemma page_to_slide_frame:
  assumes "page_to_slide E d t n s i page prs w = (r, w')"
  shows "pptx_files w' = pptx_files w"
    and "filter (\<lambda>(k, fs). k \<noteq> t) (tmp_dirs w') = filter (\<lambda>(k, fs). k \<noteq> t) (tmp_dirs w)"
    and "\<exists>evs. trace w' = trace w @ evs \<and> set (rendered_dpis evs) \<subseteq> {d}"
  using assms
  by (auto simp add: page_to_slide_def Let_def write_stdout_def called_def tmp_write_def
      filter_tmp_write split: sum.splits option.splits)

lemma process_pages_frame:
  "process_pages E d t n s ps prs w = (r, w') \<Longrightarrow>
     pptx_files w' = pptx_files w
   \<and> filter (\<lambda>(k, fs). k \<noteq> t) (tmp_dirs w') = filter (\<lambda>(k, fs). k \<noteq> t) (tmp_dirs w)
   \<and> (\<exists>evs. trace w' = trace w @ evs \<and> set (rendered_dpis evs) \<subseteq> {d})"
proof (induction ps arbitrary: prs w)
  case Nil
  then show ?case by simp
next
  case (Cons ip ps)
  obtain i page where ip: "ip = (i, page)" by (cases ip)
  obtain r1 w1 where step: "page_to_slide E d t n (s i) i page prs w = (r1, w1)"
    by (cases "page_to_slide E d t n (s i) i page prs w")
  note f = page_to_slide_frame [OF step]
  show ?case
  proof (cases r1)
    case (Inl e)
    with Cons.prems ip step have "w' = w1" by simp
    with f show ?thesis by simp
  next
    case (Inr prs1)
    with Cons.prems ip step have rest: "process_pages E d t n s ps prs1 w1 = (r, w')" by simp
    from Cons.IH [OF rest] f show ?thesis
      by (auto simp add: rendered_dpis_append)
  qed
qed

text \<open>A page whose rendering raises ends the loop with an exception\<close>

lemma page_to_slide_fail:
  "get_pixmap page d = Inl e \<Longrightarrow> \<exists>w'. page_to_slide E d t n s i page prs w = (Inl e, w')"
  by (simp add: page_to_slide_def Let_def)

lemma process_pages_fail:
  "(i, page) \<in> set ps \<Longrightarrow> get_pixmap page d = Inl e \<Longrightarrow>
   \<exists>e' w'. process_pages E d t n s ps prs w = (Inl e', w')"
proof (induction ps arbitrary: prs w)
  case Nil
  then show ?case by simp
next
  case (Cons jq ps)
  obtain j q where jq: "jq = (j, q)" by (cases jq)
  obtain r1 w1 where step: "page_to_slide E d t n (s j) j q prs w = (r1, w1)"
    by (cases "page_to_slide E d t n (s j) j q prs w")
  show ?case
  proof (cases r1)
    case (Inl e1)
    with jq step show ?thesis by simp
  next
    case (Inr prs1)
    have "(i, page) \<noteq> (j, q)"
    proof
      assume "(i, page) = (j, q)"
      with Cons.prems(2) obtain w2 where "page_to_slide E d t n (s j) j q prs w = (Inl e, w2)"
        using page_to_slide_fail by blast
      with step Inr show False by simp
    qed
    with Cons.prems jq have "(i, page) \<in> set ps" by auto
    from Cons.IH [OF this Cons.prems(2)] jq step Inr show ?thesis by simp
  qed
qed

text \<open>Pages that all succeed give one slide each, in order\<close>

lemma page_to_slide_ok:
  assumes "page_ok E d page" and "\<forall>p. png_save_error E p = None"
  shows "\<exists>w'. page_to_slide E d t n s i page prs w =
           (Inr (prs\<lparr>slides := slides prs
                    @ [slide_of t d (slide_width prs, slide_height prs) (i, page)]\<rparr>), w')"
proof -
  from assms(1) obtain pix where pix: "get_pixmap page d = Inr pix" "0 < pix_height pix"
    "resize_error E (pix_width pix, pix_height pix) (page_image_size d page) = None"
    by (auto simp add: page_ok_def split: sum.splits)
  from pix(2) obtain sz where sz: "resized_size (pix_width pix, pix_height pix) = Inr sz"
    by (simp add: resized_size_def Let_def)
  with pix(1) have pis: "page_image_size d page = sz" by (simp add: page_image_size_def)
  show ?thesis
    using pix sz pis assms(2)
    by (simp add: page_to_slide_def Let_def slide_of_def)
qed

lemma process_pages_ok:
  assumes "\<forall>p. png_save_error E p = None"
  shows "\<forall>ip \<in> set ps. page_ok E d (snd ip) \<Longrightarrow>
   \<exists>w'. process_pages E d t n s ps prs w =
      (Inr (prs\<lparr>slides := slides prs
               @ map (slide_of t d (slide_width prs, slide_height prs)) ps\<rparr>), w')"
proof (induction ps arbitrary: prs w)
  case Nil
  then show ?case by simp
next
  case (Cons ip ps)
  obtain i page where ip: "ip = (i, page)" by (cases ip)
  with Cons.prems have ok: "page_ok E d page" by simp
  let ?prs1 = "prs\<lparr>slides := slides prs
                    @ [slide_of t d (slide_width prs, slide_height prs) (i, page)]\<rparr>"
  from page_to_slide_ok [OF ok assms] obtain w1
    where step: "page_to_slide E d t n (s i) i page prs w = (Inr ?prs1, w1)" by blast
  from Cons.prems have "\<forall>ip \<in> set ps. page_ok E d (snd ip)" by simp
  from Cons.IH [OF this, of ?prs1 w1] obtain w'
    where "process_pages E d t n s ps ?prs1 w1 =
      (Inr (?prs1\<lparr>slides := slides ?prs1
               @ map (slide_of t d (slide_width ?prs1, slide_height ?prs1)) ps\<rparr>), w')"
    by blast
  with ip step show ?case by simp
qed

text \<open>The body of the with block\<close>

lemma convert_in_frame:
  assumes "convert_in E p out canvas d s t w = (r, w')"
  shows "filter (\<lambda>(k, fs). k \<noteq> t) (tmp_dirs w') = filter (\<lambda>(k, fs). k \<noteq> t) (tmp_dirs w)"
    and "\<exists>evs. trace w' = trace w @ evs \<and> set (rendered_dpis evs) \<subseteq> {d}"
proof -
  let ?w2 = "called (FitzOpen p) (print (''Processing: '' @ path_name E p) w)"
  show "filter (\<lambda>(k, fs). k \<noteq> t) (tmp_dirs w') = filter (\<lambda>(k, fs). k \<noteq> t) (tmp_dirs w)"
  proof (cases "fitz_open E p")
    case (Inl e)
    with assms show ?thesis
      by (auto simp add: convert_in_def Let_def print_def write_stdout_def called_def)
  next
    case (Inr pdf_doc)
    let ?w3 = "print (''PDF pages: '' @ str_nat (length pdf_doc)) ?w2"
    let ?prs = "Presentation\<lparr>slide_width := fst canvas, slide_height := snd canvas\<rparr>"
    obtain r4 w4 where loop:
      "process_pages E d t (length pdf_doc) s (enumerate 0 pdf_doc) ?prs ?w3 = (r4, w4)"
      by (cases "process_pages E d t (length pdf_doc) s (enumerate 0 pdf_doc) ?prs ?w3")
    from process_pages_frame [OF loop]
    have "filter (\<lambda>(k, fs). k \<noteq> t) (tmp_dirs w4) = filter (\<lambda>(k, fs). k \<noteq> t) (tmp_dirs w)"
      by (simp add: print_def write_stdout_def called_def)
    with assms Inr loop show ?thesis
      by (auto simp add: convert_in_def Let_def print_def write_stdout_def called_def
          split: sum.splits option.splits)
  qed
  show "\<exists>evs. trace w' = trace w @ evs \<and> set (rendered_dpis evs) \<subseteq> {d}"
  proof (cases "fitz_open E p")
    case (Inl e)
    with assms show ?thesis
      by (auto simp add: convert_in_def Let_def print_def write_stdout_def called_def)
  next
    case (Inr pdf_doc)
    let ?w3 = "print (''PDF pages: '' @ str_nat (length pdf_doc)) ?w2"
    let ?prs = "Presentation\<lparr>slide_width := fst canvas, slide_height := snd canvas\<rparr>"
    obtain r4 w4 where loop:
      "process_pages E d t (length pdf_doc) s (enumerate 0 pdf_doc) ?prs ?w3 = (r4, w4)"
      by (cases "process_pages E d t (length pdf_doc) s (enumerate 0 pdf_doc) ?prs ?w3")
    from process_pages_frame [OF loop] obtain evs
      where evs: "trace w4 = trace w @ [FitzOpen p] @ evs" "set (rendered_dpis evs) \<subseteq> {d}"
      by (auto simp add: print_def write_stdout_def called_def)
    show ?thesis
    proof (cases r4)
      case (Inl e)
      with assms Inr loop have "w' = w4" by (simp add: convert_in_def Let_def)
      with evs show ?thesis by (auto simp add: rendered_dpis_append)
    next
      case r4: (Inr prs')
      with assms Inr loop have "trace w' = trace w4 @ [PptxSave out]"
        by (auto simp add: convert_in_def Let_def print_def write_stdout_def called_def
            split: option.splits)
      with evs have "trace w' = trace w @ ([FitzOpen p] @ evs @ [PptxSave out])" by simp
      moreover have "set (rendered_dpis ([FitzOpen p] @ evs @ [PptxSave out])) \<subseteq> {d}"
        using evs(2) by (simp add: rendered_dpis_append)
      ultimately show ?thesis by blast
    qed
  qed
qed

lemma convert_in_fail:
  assumes "fitz_open E p = Inr pages" and "page \<in> set pages" and "get_pixmap page d = Inl e"
  shows "\<exists>e' w'. convert_in E p out canvas d s t w = (Inl e', w') \<and> pptx_files w' = pptx_files w"
proof -
  let ?w3 = "print (''PDF pages: '' @ str_nat (length pages))
               (called (FitzOpen p) (print (''Processing: '' @ path_name E p) w))"
  let ?prs = "Presentation\<lparr>slide_width := fst canvas, slide_height := snd canvas\<rparr>"
  from assms(2) have "page \<in> snd ` set (enumerate 0 pages)"
    by (metis list.set_map map_snd_enumerate)
  then obtain i where "(i, page) \<in> set (enumerate 0 pages)" by auto
  from process_pages_fail [OF this assms(3)] obtain e' w4 where loop:
    "process_pages E d t (length pages) s (enumerate 0 pages) ?prs ?w3 = (Inl e', w4)"
    by blast
  from process_pages_frame [OF loop] have "pptx_files w4 = pptx_files w"
    by (simp add: print_def write_stdout_def called_def)
  with assms(1) loop show ?thesis by (simp add: convert_in_def Let_def)
qed


text \<open>The with block\<close>

lemma with_temp_dir_convert_in:
  assumes "with_temp_dir (convert_in E p out canvas d s) w = (r, w')"
  shows "tmp_dirs w' = tmp_dirs w"
    and "\<exists>evs. trace w' = trace w @ [MkDTemp (fresh_tmp w)] @ evs @ [RmTree (fresh_tmp w)]
           \<and> set (rendered_dpis evs) \<subseteq> {d}"
    and "\<exists>w1. convert_in E p out canvas d s (fresh_tmp w) (mkdtemp (fresh_tmp w) w) = (r, w1)
           \<and> pptx_files w' = pptx_files w1 \<and> stdout w' = stdout w1"
proof -
  let ?t = "fresh_tmp w"
  obtain r1 w1 where body: "convert_in E p out canvas d s ?t (mkdtemp ?t w) = (r1, w1)"
    by (cases "convert_in E p out canvas d s ?t (mkdtemp ?t w)")
  with assms have r: "r = r1" and w': "w' = rmtree ?t w1"
    by (simp_all add: with_temp_dir_def Let_def)
  from convert_in_frame(1) [OF body]
  have "filter (\<lambda>(k, fs). k \<noteq> ?t) (tmp_dirs w1) = filter (\<lambda>(k, fs). k \<noteq> ?t) (tmp_dirs w)"
    by (simp add: mkdtemp_def called_def)
  also have "\<dots> = tmp_dirs w" by (rule filter_fresh [OF fresh_tmp_fresh])
  finally show "tmp_dirs w' = tmp_dirs w" using w' by (simp add: rmtree_def called_def)
  from convert_in_frame(2) [OF body] obtain evs
    where "trace w1 = trace w @ [MkDTemp ?t] @ evs" "set (rendered_dpis evs) \<subseteq> {d}"
    by (auto simp add: mkdtemp_def called_def)
  with w' show "\<exists>evs. trace w' = trace w @ [MkDTemp ?t] @ evs @ [RmTree ?t]
           \<and> set (rendered_dpis evs) \<subseteq> {d}"
    by (auto simp add: rmtree_def called_def)
  from body r w' show "\<exists>w1. convert_in E p out canvas d s ?t (mkdtemp ?t w) = (r, w1)
           \<and> pptx_files w' = pptx_files w1 \<and> stdout w' = stdout w1"
    by (simp add: rmtree_def called_def)
qed


lemma fold_print:
  "fold print xs w = w\<lparr>stdout := stdout w @ map (\<lambda>s. s @ [CHR 0x0A]) xs\<rparr>"
  by (induction xs arbitrary: w) (simp_all add: print_def write_stdout_def)

lemma resolved_dpi:
  "(if d = None \<and> map_of quality_settings q \<noteq> None
    then Some (case map_of quality_settings q of Some v \<Rightarrow> v | None \<Rightarrow> 600) else d)
   = (case d of Some x \<Rightarrow> Some x | None \<Rightarrow> map_of quality_settings q)"
  by (cases d; cases "map_of quality_settings q") simp_all


text \<open>The with block and the return after it\<close>

lemma convert_scoped_frame:
  shows "tmp_dirs (snd (convert_scoped E p out canvas d s w)) = tmp_dirs w"
    and "\<exists>evs. trace (snd (convert_scoped E p out canvas d s w))
                 = trace w @ [MkDTemp (fresh_tmp w)] @ evs @ [RmTree (fresh_tmp w)]
           \<and> set (rendered_dpis evs) \<subseteq> {d}"
proof -
  obtain r1 w1 where body: "with_temp_dir (convert_in E p out canvas d s) w = (r1, w1)"
    by (cases "with_temp_dir (convert_in E p out canvas d s) w")
  then have w1: "snd (convert_scoped E p out canvas d s w) = w1"
    by (simp add: convert_scoped_def split: sum.splits)
  from with_temp_dir_convert_in(1) [OF body] w1
  show "tmp_dirs (snd (convert_scoped E p out canvas d s w)) = tmp_dirs w" by simp
  from with_temp_dir_convert_in(2) [OF body] w1
  show "\<exists>evs. trace (snd (convert_scoped E p out canvas d s w))
                 = trace w @ [MkDTemp (fresh_tmp w)] @ evs @ [RmTree (fresh_tmp w)]
           \<and> set (rendered_dpis evs) \<subseteq> {d}" by simp
qed

lemma convert_scoped_fail:
  assumes "fitz_open E p = Inr pages" and "page \<in> set pages" and "get_pixmap page d = Inl e"
  shows "\<exists>e'. fst (convert_scoped E p out canvas d s w) = Inl e'"
    and "pptx_files (snd (convert_scoped E p out canvas d s w)) = pptx_files w"
proof -
  obtain r1 w1 where body: "with_temp_dir (convert_in E p out canvas d s) w = (r1, w1)"
    by (cases "with_temp_dir (convert_in E p out canvas d s) w")
  from with_temp_dir_convert_in(3) [OF body] obtain w0
    where inner: "convert_in E p out canvas d s (fresh_tmp w) (mkdtemp (fresh_tmp w) w) = (r1, w0)"
      and files: "pptx_files w1 = pptx_files w0" by blast
  from convert_in_fail [OF assms, of out canvas s "fresh_tmp w" "mkdtemp (fresh_tmp w) w"] inner
  obtain e' where "r1 = Inl e'" and "pptx_files w0 = pptx_files w"
    by (auto simp add: mkdtemp_def called_def)
  with body files show "\<exists>e'. fst (convert_scoped E p out canvas d s w) = Inl e'"
    and "pptx_files (snd (convert_scoped E p out canvas d s w)) = pptx_files w"
    by (simp_all add: convert_scoped_def)
qed


text \<open>The two conversions, past the check of the input path\<close>

lemma pdf_to_pptx_scoped:
  assumes "path_exists E p"
  shows "pdf_to_pptx E p outp ar cw ch q d m w =
     convert_scoped E p
       (case outp of
          Some p' \<Rightarrow> if p' \<noteq> [] then p' else with_suffix E p ''.pptx''
        | None \<Rightarrow> with_suffix E p ''.pptx'')
       (Inches (fst (get_slide_dimensions ar cw ch)),
        Inches (snd (get_slide_dimensions ar cw ch)))
       (case d of Some x \<Rightarrow> Some x | None \<Rightarrow> map_of quality_settings q) Suc
       (called (PathExists p) w)"
proof -
  obtain W H where wh: "get_slide_dimensions ar cw ch = (W, H)"
    by (cases "get_slide_dimensions ar cw ch")
  show ?thesis
    unfolding pdf_to_pptx_def Let_def resolved_dpi
    using assms wh by simp
qed

lemma pdf_to_pptx_missing:
  assumes "\<not> path_exists E p"
  shows "pdf_to_pptx E p outp ar cw ch q d m w =
     (Inr False, print (''Error: File '' @ p @ '' not found.'') (called (PathExists p) w))"
  using assms by (simp add: pdf_to_pptx_def Let_def)

lemma main_py_pdf_to_pptx_scoped:
  assumes "path_exists E p"
  shows "main_py_pdf_to_pptx E p w =
     convert_scoped E p (with_suffix E p ''.pptx'') (Inches 10, Inches (15 / 2)) (Some 300)
       (\<lambda>i. i) (called (PathExists p) w)"
  using assms by (simp add: main_py_pdf_to_pptx_def Let_def)

lemma main_py_pdf_to_pptx_missing:
  assumes "\<not> path_exists E p"
  shows "main_py_pdf_to_pptx E p w =
     (Inr False, print (''Error: File '' @ p @ '' not found.'') (called (PathExists p) w))"
  using assms by (simp add: main_py_pdf_to_pptx_def Let_def)

lemma pdf_to_pptx_trace:
  "\<exists>evs. trace (snd (pdf_to_pptx E p outp ar cw ch q d m w)) = trace w @ evs
     \<and> set (rendered_dpis evs)
          \<subseteq> {case d of Some x \<Rightarrow> Some x | None \<Rightarrow> map_of quality_settings q}"
proof (cases "path_exists E p")
  case True
  let ?d = "case d of Some x \<Rightarrow> Some x | None \<Rightarrow> map_of quality_settings q"
  let ?w1 = "called (PathExists p) w"
  let ?out = "case outp of
                Some p' \<Rightarrow> if p' \<noteq> [] then p' else with_suffix E p ''.pptx''
              | None \<Rightarrow> with_suffix E p ''.pptx''"
  let ?canvas = "(Inches (fst (get_slide_dimensions ar cw ch)),
                  Inches (snd (get_slide_dimensions ar cw ch)))"
  have eq: "pdf_to_pptx E p outp ar cw ch q d m w = convert_scoped E p ?out ?canvas ?d Suc ?w1"
    by (rule pdf_to_pptx_scoped [OF True])
  from convert_scoped_frame(2) [of E p ?out ?canvas ?d Suc ?w1]
  obtain evs where
    "trace (snd (pdf_to_pptx E p outp ar cw ch q d m w))
       = trace ?w1 @ [MkDTemp (fresh_tmp ?w1)] @ evs @ [RmTree (fresh_tmp ?w1)]"
    "set (rendered_dpis evs) \<subseteq> {?d}"
    unfolding eq by blast
  then have "trace (snd (pdf_to_pptx E p outp ar cw ch q d m w))
       = trace w @ ([PathExists p, MkDTemp (fresh_tmp ?w1)] @ evs @ [RmTree (fresh_tmp ?w1)])"
    and "set (rendered_dpis ([PathExists p, MkDTemp (fresh_tmp ?w1)] @ evs
                @ [RmTree (fresh_tmp ?w1)])) \<subseteq> {?d}"
    by (simp_all add: called_def rendered_dpis_append)
  then show ?thesis by blast
next
  case False
  have "trace (snd (pdf_to_pptx E p outp ar cw ch q d m w)) = trace w @ [PathExists p]"
    by (simp add: pdf_to_pptx_missing [OF False] print_def write_stdout_def called_def)
  moreover have "set (rendered_dpis [PathExists p]) \<subseteq> {case d of Some x \<Rightarrow> Some x | None \<Rightarrow> map_of quality_settings q}"
    by simp
  ultimately show ?thesis by blast
qed

lemma convert_scoped_after_check:
  "\<exists>evs. trace (snd (convert_scoped E p out canvas d s (called (PathExists p) w)))
           = trace w @ [PathExists p, MkDTemp (fresh_tmp w)] @ evs @ [RmTree (fresh_tmp w)]"
proof -
  let ?w1 = "called (PathExists p) w"
  have f1: "fresh_tmp ?w1 = fresh_tmp w" and tr1: "trace ?w1 = trace w @ [PathExists p]"
    by (simp_all add: called_def fresh_tmp_def)
  from convert_scoped_frame(2) [of E p out canvas d s ?w1] obtain evs
    where "trace (snd (convert_scoped E p out canvas d s ?w1))
             = trace ?w1 @ [MkDTemp (fresh_tmp ?w1)] @ evs @ [RmTree (fresh_tmp ?w1)]"
    by blast
  then have "trace (snd (convert_scoped E p out canvas d s ?w1))
             = trace w @ [PathExists p, MkDTemp (fresh_tmp w)] @ evs @ [RmTree (fresh_tmp w)]"
    unfolding f1 tr1 by simp
  then show ?thesis by blast
qed


text \<open>Sample runs are evaluated with these equations.\<close>

lemma fl_half: "fl (1 / 2) = 1 / 2" by code_simp
lemma fl_1536: "fl 1536 = 1536" by code_simp
lemma fl_768: "fl 768 = 768" by code_simp

lemma resized_good_page: "resized_size (1536, 2048) = Inr (768, 1024)"
  by (simp add: resized_size_def Let_def fl_half fl_1536 fl_768 py_int_def)

lemmas run_defs = main_def pdf_to_pptx_simple_def pdf_to_pptx_def main_py_pdf_to_pptx_def
  convert_scoped_def with_temp_dir_def convert_in_def page_to_slide_def
  deck_env_def deck_args_def good_page_def bad_page_def blank_world_def Let_def called_def
  print_def write_stdout_def mkdtemp_def rmtree_def tmp_write_def fresh_tmp_def temp_path_def
  get_slide_dimensions_def ratios_def quality_settings_def truthy_def Presentation_def
  resized_good_page str_nat.simps digit_char_def enumerate_eq_zip

subsection \<open>Rasterisation errors\<close>

text \<open>
  Claim C1, as amended. The helper \<^verbatim>\<open>convert_pdf_to_png\<close> catches a rasterisation
  error, prints it with the 1-based page number and returns \<^verbatim>\<open>None\<close>. The
  conversion does not call the helper and has no handler in its loop: when rendering a
  page of the document raises, \<^verbatim>\<open>pdf_to_pptx\<close> (in both files) ends with an
  exception, reports no success and writes no presentation.
\<close>

theorem render_error_aborts_conversion:
  assumes "fitz_open E p = Inr pages" and "get_pixmap page d' = Inl e"
  shows "(doc_getitem pages n = Inr page \<longrightarrow>
            convert_pdf_to_png E p dir n d' w =
              (Inr None,
               print (''Error converting page '' @ str_int (n + 1) @ '' to PNG: '' @ str_error e)
                 (called (GetPixmap n d') (called (FitzOpen p) w))))
    \<and> (path_exists E p \<and> page \<in> set pages
          \<and> d' = (case d of Some x \<Rightarrow> Some x | None \<Rightarrow> map_of quality_settings q) \<longrightarrow>
        (\<exists>e'. fst (pdf_to_pptx E p outp ar cw ch q d m w) = Inl e')
        \<and> pptx_files (snd (pdf_to_pptx E p outp ar cw ch q d m w)) = pptx_files w)
    \<and> (path_exists E p \<and> page \<in> set pages \<and> d' = Some 300 \<longrightarrow>
        (\<exists>e'. fst (main_py_pdf_to_pptx E p w) = Inl e')
        \<and> pptx_files (snd (main_py_pdf_to_pptx E p w)) = pptx_files w)"
proof (intro conjI impI)
  assume "doc_getitem pages n = Inr page"
  with assms show "convert_pdf_to_png E p dir n d' w =
      (Inr None,
       print (''Error converting page '' @ str_int (n + 1) @ '' to PNG: '' @ str_error e)
         (called (GetPixmap n d') (called (FitzOpen p) w)))"
    by (simp add: convert_pdf_to_png_def convert_pdf_to_png_try_def Let_def)
next
  assume h: "path_exists E p \<and> page \<in> set pages
          \<and> d' = (case d of Some x \<Rightarrow> Some x | None \<Rightarrow> map_of quality_settings q)"
  then have ex: "path_exists E p" and mem: "page \<in> set pages"
    and d': "(case d of Some x \<Rightarrow> Some x | None \<Rightarrow> map_of quality_settings q) = d'"
    by simp_all
  show "\<exists>e'. fst (pdf_to_pptx E p outp ar cw ch q d m w) = Inl e'"
    unfolding pdf_to_pptx_scoped [OF ex] d'
    by (rule convert_scoped_fail(1) [OF assms(1) mem assms(2)])
  show "pptx_files (snd (pdf_to_pptx E p outp ar cw ch q d m w)) = pptx_files w"
    unfolding pdf_to_pptx_scoped [OF ex] d'
    by (simp add: convert_scoped_fail(2) [OF assms(1) mem assms(2)] called_def)
next
  assume h: "path_exists E p \<and> page \<in> set pages \<and> d' = Some 300"
  then have ex: "path_exists E p" and mem: "page \<in> set pages" and d': "Some 300 = d'"
    by simp_all
  show "\<exists>e'. fst (main_py_pdf_to_pptx E p w) = Inl e'"
    unfolding main_py_pdf_to_pptx_scoped [OF ex] d'
    by (rule convert_scoped_fail(1) [OF assms(1) mem assms(2)])
  show "pptx_files (snd (main_py_pdf_to_pptx E p w)) = pptx_files w"
    unfolding main_py_pdf_to_pptx_scoped [OF ex] d'
    by (simp add: convert_scoped_fail(2) [OF assms(1) mem assms(2)] called_def)
qed

theorem render_error_aborts_conversion_witness:
  "fitz_open (deck_env [good_page, good_page, bad_page, good_page, good_page]) ''deck.pdf''
     = Inr [good_page, good_page, bad_page, good_page, good_page]
   \<and> get_pixmap bad_page (Some 600) = Inl (ExternalError ''cannot render page'')
   \<and> doc_getitem [good_page, good_page, bad_page, good_page, good_page] 2 = Inr bad_page
   \<and> path_exists (deck_env [good_page, good_page, bad_page, good_page, good_page]) ''deck.pdf''
   \<and> bad_page \<in> set [good_page, good_page, bad_page, good_page, good_page]
   \<and> stdout (snd (convert_pdf_to_png
         (deck_env [good_page, good_page, bad_page, good_page, good_page])
         ''deck.pdf'' ''out'' 2 (Some 600) blank_world))
       = [''Error converting page 3 to PNG: cannot render page'' @ [CHR 0x0A]]
   \<and> (\<exists>e'. fst (pdf_to_pptx
         (deck_env [good_page, good_page, bad_page, good_page, good_page])
         ''deck.pdf'' None ''4:3'' None None ''high'' None ''png'' blank_world) = Inl e')
   \<and> pptx_files (snd (pdf_to_pptx
         (deck_env [good_page, good_page, bad_page, good_page, good_page])
         ''deck.pdf'' None ''4:3'' None None ''high'' None ''png'' blank_world)) = []"
  using render_error_aborts_conversion
    [where E = "deck_env [good_page, good_page, bad_page, good_page, good_page]"
      and p = "''deck.pdf''" and pages = "[good_page, good_page, bad_page, good_page, good_page]"
      and page = bad_page and d' = "Some 600" and e = "ExternalError ''cannot render page''"
      and n = 2 and dir = "''out''" and w = blank_world and d = None and q = "''high''"
      and outp = None and ar = "''4:3''" and cw = None and ch = None and m = "''png''"]
  by (simp add: deck_env_def bad_page_def doc_getitem_def blank_world_def quality_settings_def
      print_def write_stdout_def called_def str_int_def str_nat.simps digit_char_def)

text \<open>
  Claim C1 as stated fails: in a five-page document whose page of index 2 cannot be
  rendered, the conversion ends with that exception, no presentation is written (there
  is no four-slide output), and the command line exits with status 1.
\<close>

theorem render_error_not_skipped:
  "fst (pdf_to_pptx (deck_env [good_page, good_page, bad_page, good_page, good_page])
         ''deck.pdf'' None ''4:3'' None None ''high'' None ''png'' blank_world)
     = Inl (ExternalError ''cannot render page'')
   \<and> pptx_files (snd (pdf_to_pptx
         (deck_env [good_page, good_page, bad_page, good_page, good_page])
         ''deck.pdf'' None ''4:3'' None None ''high'' None ''png'' blank_world)) = []
   \<and> exit_status (fst (main (deck_env [good_page, good_page, bad_page, good_page, good_page])
         deck_args blank_world)) = 1
   \<and> pptx_files (snd (main (deck_env [good_page, good_page, bad_page, good_page, good_page])
         deck_args blank_world)) = []"
  by (simp add: run_defs exit_status_def)

subsection \<open>Slides of a successful conversion\<close>



subsection \<open>Rendering resolution\<close>

text \<open>
  Claim C4, as amended. Every page of a run is rendered at one DPI. Without
  \<^verbatim>\<open>--simple\<close> it is the explicit \<^verbatim>\<open>--dpi\<close> when one is given and otherwise
  the preset of the quality tier: low 150, medium 300, high 600, ultra 1200. With
  \<^verbatim>\<open>--simple\<close> it is 300, whatever the quality tier and the explicit DPI are.
\<close>

theorem rendering_dpi:
  "(\<exists>evs. trace (snd (main E a w)) = trace w @ evs
      \<and> set (rendered_dpis evs)
           \<subseteq> {if simple a then Some 300
               else case dpi a of Some x \<Rightarrow> Some x
                    | None \<Rightarrow> map_of quality_settings (quality a)})
   \<and> map_of quality_settings ''low'' = Some 150
   \<and> map_of quality_settings ''medium'' = Some 300
   \<and> map_of quality_settings ''high'' = Some 600
   \<and> map_of quality_settings ''ultra'' = Some 1200"
proof -
  let ?d = "if simple a then Some 300
            else case dpi a of Some x \<Rightarrow> Some x | None \<Rightarrow> map_of quality_settings (quality a)"
  have early: "trace (snd (main E a w)) = trace w @ evs \<Longrightarrow> rendered_dpis evs = [] \<Longrightarrow>
      \<exists>evs. trace (snd (main E a w)) = trace w @ evs \<and> set (rendered_dpis evs) \<subseteq> {?d}" for evs
    by (metis empty_subsetI list.set(1))
  let ?w1 = "called (PathExists (input_pdf a)) w"
  let ?ws = "print ''Running in simple mode (4:3, 300 DPI)...'' ?w1"
  let ?bad = "aspect a = ''custom''
      \<and> (width a = None \<or> height a = None \<or> the (width a) \<le> 0 \<or> the (height a) \<le> 0)"
  have "\<exists>evs. trace (snd (main E a w)) = trace w @ evs \<and> set (rendered_dpis evs) \<subseteq> {?d}"
  proof (cases "list_aspects a")
    case True
    then have "trace (snd (main E a w)) = trace w @ []" by (simp add: main_def fold_print)
    then show ?thesis by (rule early) simp
  next
    case listing: False
    show ?thesis
    proof (cases ?bad)
      case True
      with listing have "trace (snd (main E a w)) = trace w @ []"
        by (auto simp add: main_def print_def write_stdout_def)
      then show ?thesis by (rule early) simp
    next
      case valid: False
      show ?thesis
      proof (cases "path_exists E (input_pdf a)")
        case False
        with listing valid have "trace (snd (main E a w)) = trace w @ [PathExists (input_pdf a)]"
          by (auto simp add: main_def Let_def print_def write_stdout_def called_def)
        then show ?thesis by (rule early) simp
      next
        case found: True
        show ?thesis
        proof (cases "simple a")
          case True
          with listing valid found
          have m: "snd (main E a w) = snd (pdf_to_pptx E (input_pdf a) (output_file a) ''4:3''
              None None ''high'' (Some 300) ''png'' ?ws)"
            by (auto simp add: main_def Let_def pdf_to_pptx_simple_def
                split: prod.splits sum.splits)
          from pdf_to_pptx_trace [of E "input_pdf a" "output_file a" "''4:3''" None None
              "''high''" "Some 300" "''png''" ?ws]
          obtain evs where "trace (snd (main E a w)) = trace ?ws @ evs"
            "set (rendered_dpis evs) \<subseteq> {Some 300}"
            using m by auto
          then have "trace (snd (main E a w)) = trace w @ (PathExists (input_pdf a) # evs)"
            "set (rendered_dpis (PathExists (input_pdf a) # evs)) \<subseteq> {Some 300}"
            by (simp_all add: print_def write_stdout_def called_def)
          with True show ?thesis by auto
        next
          case False
          with listing valid found
          have m: "snd (main E a w) = snd (pdf_to_pptx E (input_pdf a) (output_file a)
              (aspect a) (width a) (height a) (quality a) (dpi a) (conv_method a) ?w1)"
            by (auto simp add: main_def Let_def split: prod.splits sum.splits)
          from pdf_to_pptx_trace [of E "input_pdf a" "output_file a" "aspect a" "width a"
              "height a" "quality a" "dpi a" "conv_method a" ?w1]
          obtain evs where "trace (snd (main E a w)) = trace ?w1 @ evs"
            "set (rendered_dpis evs)
               \<subseteq> {case dpi a of Some x \<Rightarrow> Some x
                   | None \<Rightarrow> map_of quality_settings (quality a)}"
            using m by auto
          then have "trace (snd (main E a w)) = trace w @ (PathExists (input_pdf a) # evs)"
            "set (rendered_dpis (PathExists (input_pdf a) # evs))
               \<subseteq> {case dpi a of Some x \<Rightarrow> Some x
                   | None \<Rightarrow> map_of quality_settings (quality a)}"
            by (simp_all add: called_def)
          with False show ?thesis by auto
        qed
      qed
    qed
  qed
  then show ?thesis by (simp add: quality_settings_def)
qed

theorem rendering_dpi_witness:
  "\<not> simple (deck_args\<lparr>quality := ''low''\<rparr>) \<and> dpi (deck_args\<lparr>quality := ''low''\<rparr>) = None
   \<and> rendered_dpis (trace (snd (main (deck_env [good_page]) (deck_args\<lparr>quality := ''low''\<rparr>)
         blank_world))) = [Some 150]
   \<and> (\<exists>evs. trace (snd (main (deck_env [good_page]) (deck_args\<lparr>quality := ''low''\<rparr>)
                  blank_world)) = trace blank_world @ evs
          \<and> set (rendered_dpis evs) \<subseteq> {Some 150})"
  using rendering_dpi [of "deck_env [good_page]" "deck_args\<lparr>quality := ''low''\<rparr>" blank_world]
  by (simp add: run_defs)

text \<open>
  Claim C4 as stated fails: with \<^verbatim>\<open>--simple\<close>, quality low and no explicit DPI the
  page is rendered at 300 DPI and not at 150, and an explicit DPI of 72 is not used.
\<close>

theorem simple_mode_ignores_quality:
  "dpi (deck_args\<lparr>quality := ''low'', simple := True\<rparr>) = None
   \<and> quality (deck_args\<lparr>quality := ''low'', simple := True\<rparr>) = ''low''
   \<and> rendered_dpis (trace (snd (main (deck_env [good_page])
         (deck_args\<lparr>quality := ''low'', simple := True\<rparr>) blank_world))) = [Some 300]
   \<and> rendered_dpis (trace (snd (main (deck_env [good_page])
         (deck_args\<lparr>dpi := Some 72, simple := True\<rparr>) blank_world))) = [Some 300]"
  by (simp add: run_defs)

subsection \<open>Exits of the command line\<close>



text \<open>
  Claim C5, as amended. Without \<^verbatim>\<open>--list-aspects\<close>, an invocation with aspect
  \<^verbatim>\<open>custom\<close> whose width or height is missing, or is zero or negative, exits with
  status 1 before any processing: no call is made, and no scratch directory and no
  output file is created.
\<close>

theorem custom_without_size_exits_1:
  "\<not> list_aspects a \<Longrightarrow> aspect a = ''custom'' \<Longrightarrow>
   width a = None \<or> height a = None
     \<or> (\<exists>x y. width a = Some x \<and> height a = Some y \<and> (x \<le> 0 \<or> y \<le> 0)) \<Longrightarrow>
   fst (main E a w) = Inr 1
   \<and> exit_status (fst (main E a w)) = 1
   \<and> trace (snd (main E a w)) = trace w
   \<and> tmp_dirs (snd (main E a w)) = tmp_dirs w
   \<and> pptx_files (snd (main E a w)) = pptx_files w"
  by (auto simp add: main_def exit_status_def print_def write_stdout_def)

theorem custom_without_size_exits_1_witness:
  "\<not> list_aspects (deck_args\<lparr>aspect := ''custom'', width := Some 0, height := Some 5\<rparr>)
   \<and> exit_status (fst (main (deck_env [good_page])
         (deck_args\<lparr>aspect := ''custom'', width := Some 0, height := Some 5\<rparr>) blank_world)) = 1
   \<and> exit_status (fst (main (deck_env [good_page])
         (deck_args\<lparr>aspect := ''custom'', height := Some 5\<rparr>) blank_world)) = 1
   \<and> trace (snd (main (deck_env [good_page])
         (deck_args\<lparr>aspect := ''custom'', width := Some 0, height := Some 5\<rparr>) blank_world)) = []
   \<and> pptx_files (snd (main (deck_env [good_page])
         (deck_args\<lparr>aspect := ''custom'', width := Some 0, height := Some 5\<rparr>) blank_world)) = []"
proof -
  let ?a = "deck_args\<lparr>aspect := ''custom'', width := Some 0, height := Some 5\<rparr>"
  let ?b = "deck_args\<lparr>aspect := ''custom'', height := Some 5\<rparr>"
  have ha: "\<not> list_aspects ?a" "aspect ?a = ''custom''"
    "width ?a = None \<or> height ?a = None
       \<or> (\<exists>x y. width ?a = Some x \<and> height ?a = Some y \<and> (x \<le> 0 \<or> y \<le> 0))"
    by (simp_all add: deck_args_def)
  have hb: "\<not> list_aspects ?b" "aspect ?b = ''custom''"
    "width ?b = None \<or> height ?b = None
       \<or> (\<exists>x y. width ?b = Some x \<and> height ?b = Some y \<and> (x \<le> 0 \<or> y \<le> 0))"
    by (simp_all add: deck_args_def)
  have b: "trace blank_world = []" "pptx_files blank_world = []"
    by (simp_all add: blank_world_def)
  from custom_without_size_exits_1 [OF ha, of "deck_env [good_page]" blank_world]
    custom_without_size_exits_1 [OF hb, of "deck_env [good_page]" blank_world] ha(1) b
  show ?thesis by (simp add: exit_status_def)
qed

text \<open>
  Claim C5 as stated fails: with \<^verbatim>\<open>--list-aspects\<close>, aspect \<^verbatim>\<open>custom\<close> and no
  width the command line exits with status 0.
\<close>

theorem custom_without_size_listing_exits_0:
  "aspect (deck_args\<lparr>aspect := ''custom'', list_aspects := True\<rparr>) = ''custom''
   \<and> width (deck_args\<lparr>aspect := ''custom'', list_aspects := True\<rparr>) = None
   \<and> exit_status (fst (main (deck_env [good_page])
         (deck_args\<lparr>aspect := ''custom'', list_aspects := True\<rparr>) blank_world)) = 0"
  by (simp add: main_def deck_args_def exit_status_def)

subsection \<open>Scratch directory\<close>

text \<open>
  Claim C8. Every call of \<^verbatim>\<open>pdf_to_pptx\<close>, in both files, leaves the scratch
  directories as it found them, whether it returns or raises. When the input exists the
  call creates one directory, under a name that no existing scratch directory has, and
  its last call removes that directory with the intermediate images in it.
\<close>

theorem scratch_directory_removed:
  "tmp_dirs (snd (pdf_to_pptx E p outp ar cw ch q d m w)) = tmp_dirs w
   \<and> tmp_dirs (snd (main_py_pdf_to_pptx E p w)) = tmp_dirs w
   \<and> fresh_tmp w \<notin> fst ` set (tmp_dirs w)
   \<and> (path_exists E p \<longrightarrow>
        (\<exists>evs. trace (snd (pdf_to_pptx E p outp ar cw ch q d m w))
                 = trace w @ [PathExists p, MkDTemp (fresh_tmp w)] @ evs @ [RmTree (fresh_tmp w)])
        \<and> (\<exists>evs. trace (snd (main_py_pdf_to_pptx E p w))
                 = trace w @ [PathExists p, MkDTemp (fresh_tmp w)] @ evs @ [RmTree (fresh_tmp w)]))"
proof (cases "path_exists E p")
  case True
  let ?w1 = "called (PathExists p) w"
  have t1: "tmp_dirs ?w1 = tmp_dirs w" and f1: "fresh_tmp ?w1 = fresh_tmp w"
    and tr1: "trace ?w1 = trace w @ [PathExists p]"
    by (simp_all add: called_def fresh_tmp_def)
  have a: "tmp_dirs (snd (pdf_to_pptx E p outp ar cw ch q d m w)) = tmp_dirs w"
    unfolding pdf_to_pptx_scoped [OF True] convert_scoped_frame(1) by (rule t1)
  have b: "tmp_dirs (snd (main_py_pdf_to_pptx E p w)) = tmp_dirs w"
    unfolding main_py_pdf_to_pptx_scoped [OF True] convert_scoped_frame(1) by (rule t1)
  have c: "\<exists>evs. trace (snd (pdf_to_pptx E p outp ar cw ch q d m w))
                 = trace w @ [PathExists p, MkDTemp (fresh_tmp w)] @ evs @ [RmTree (fresh_tmp w)]"
    unfolding pdf_to_pptx_scoped [OF True] by (rule convert_scoped_after_check)
  have d: "\<exists>evs. trace (snd (main_py_pdf_to_pptx E p w))
                 = trace w @ [PathExists p, MkDTemp (fresh_tmp w)] @ evs @ [RmTree (fresh_tmp w)]"
    unfolding main_py_pdf_to_pptx_scoped [OF True] by (rule convert_scoped_after_check)
  from a b c d fresh_tmp_fresh [of w] show ?thesis by blast
next
  case False
  then show ?thesis
    using fresh_tmp_fresh [of w]
    by (simp add: pdf_to_pptx_missing main_py_pdf_to_pptx_missing print_def write_stdout_def
        called_def)
qed

theorem scratch_directory_removed_witness:
  "path_exists (deck_env [good_page, bad_page]) ''deck.pdf''
   \<and> fst (pdf_to_pptx (deck_env [good_page, bad_page]) ''deck.pdf'' None ''4:3'' None None
           ''high'' None ''png'' blank_world) = Inl (ExternalError ''cannot render page'')
   \<and> tmp_dirs (snd (pdf_to_pptx (deck_env [good_page, bad_page]) ''deck.pdf'' None ''4:3'' None
           None ''high'' None ''png'' blank_world)) = []
   \<and> trace (snd (pdf_to_pptx (deck_env [good_page, bad_page]) ''deck.pdf'' None ''4:3'' None
           None ''high'' None ''png'' blank_world))
       = [PathExists ''deck.pdf'', MkDTemp 1, FitzOpen ''deck.pdf'', GetPixmap 0 (Some 600),
          PngSave ''tmp1/slide-0.png'', GetPixmap 1 (Some 600), RmTree 1]
   \<and> fst (pdf_to_pptx (deck_env [good_page]) ''deck.pdf'' None ''4:3'' None None
           ''high'' None ''png'' blank_world) = Inr True
   \<and> tmp_dirs (snd (pdf_to_pptx (deck_env [good_page]) ''deck.pdf'' None ''4:3'' None
           None ''high'' None ''png'' blank_world)) = []"
  using scratch_directory_removed [of "deck_env [good_page, bad_page]" "''deck.pdf''" None
      "''4:3''" None None "''high''" None "''png''" blank_world]
    scratch_directory_removed [of "deck_env [good_page]" "''deck.pdf''" None
      "''4:3''" None None "''high''" None "''png''" blank_world]
  by (simp add: run_defs)

subsection \<open>The resize\<close>

text \<open>
  Rounding to a double changes a positive number by at most one part in \<open>2 ^ 53\<close>, and
  \<open>ilog2\<close> is the exponent of the leading bit.
\<close>

lemma round_half_even_error: "\<bar>of_int (round_half_even y) - y\<bar> \<le> 1 / 2"
proof -
  have "of_int \<lfloor>y\<rfloor> \<le> y" "y < of_int \<lfloor>y\<rfloor> + 1" by linarith+
  then show ?thesis
    by (auto simp add: round_half_even_def Let_def abs_le_iff)
qed

lemma round_half_even_of_int: "round_half_even (of_int m) = m"
  by (simp add: round_half_even_def Let_def)

lemma ilog2_lower:
  assumes "0 < x"
  shows "2 powi (ilog2 x) \<le> x"
proof -
  obtain a b where q: "quotient_of x = (a, b)" by (cases "quotient_of x")
  then have b: "0 < b" and x: "x = of_int a / of_int b"
    by (rule quotient_of_denom_pos, rule quotient_of_div)
  with assms have a: "0 < a" by (simp add: zero_less_divide_iff)
  let ?k = "bitlen a - bitlen b"
  show ?thesis
  proof (cases "2 powi ?k \<le> x")
    case True
    with q show ?thesis by (simp add: ilog2_def)
  next
    case False
    with q have e: "ilog2 x = ?k - 1" by (simp add: ilog2_def)
    from bitlen_bounds [OF a] have la: "(2::int) ^ nat (bitlen a - 1) \<le> a" by simp
    from bitlen_bounds [OF b] have lb: "b < (2::int) ^ nat (bitlen b)" by simp
    have pa: "0 < bitlen a"
      using a bitlen_nonneg [of a] bitlen_eq_zero_iff [of a] by linarith
    have pb: "0 \<le> bitlen b" by (rule bitlen_nonneg)
    have "?k - 1 = (bitlen a - 1) - bitlen b" by simp
    then have "(2::rat) powi (?k - 1) = 2 powi (bitlen a - 1) / 2 powi (bitlen b)"
      by (simp only: power_int_diff [of "2::rat", OF disjI1] numeral_neq_zero
          not_False_eq_True)
    also have "\<dots> = 2 ^ nat (bitlen a - 1) / 2 ^ nat (bitlen b)"
      using pa pb by (simp add: power_int_def)
    also have "\<dots> \<le> of_int a / of_int b"
    proof -
      have 1: "(2::rat) ^ nat (bitlen a - 1) \<le> of_int a"
        using la by (metis of_int_le_iff of_int_numeral of_int_power)
      have 2: "(of_int b :: rat) \<le> 2 ^ nat (bitlen b)"
        using lb by (metis less_imp_le of_int_le_iff of_int_numeral of_int_power)
      have 3: "(0::rat) < of_int b" using b by simp
      show ?thesis
        by (rule frac_le) (use 1 2 3 a in simp_all)
    qed
    finally show ?thesis using e x by simp
  qed
qed

lemma ilog2_upper:
  assumes "0 < x"
  shows "x < 2 powi (ilog2 x + 1)"
proof -
  obtain a b where q: "quotient_of x = (a, b)" by (cases "quotient_of x")
  then have b: "0 < b" and x: "x = of_int a / of_int b"
    by (rule quotient_of_denom_pos, rule quotient_of_div)
  with assms have a: "0 < a" by (simp add: zero_less_divide_iff)
  let ?k = "bitlen a - bitlen b"
  show ?thesis
  proof (cases "2 powi ?k \<le> x")
    case False
    with q show ?thesis by (simp add: ilog2_def)
  next
    case True
    with q have e: "ilog2 x = ?k" by (simp add: ilog2_def)
    from bitlen_bounds [OF a] have la: "a < (2::int) ^ nat (bitlen a)" by simp
    from bitlen_bounds [OF b] have lb: "(2::int) ^ nat (bitlen b - 1) \<le> b" by simp
    have pa: "0 \<le> bitlen a" by (rule bitlen_nonneg)
    have pb: "0 < bitlen b"
      using b bitlen_nonneg [of b] bitlen_eq_zero_iff [of b] by linarith
    have 1: "(of_int a :: rat) < 2 ^ nat (bitlen a)"
      using la by (metis of_int_less_iff of_int_numeral of_int_power)
    have 2: "(2::rat) ^ nat (bitlen b - 1) \<le> of_int b"
      using lb by (metis of_int_le_iff of_int_numeral of_int_power)
    have "of_int a / of_int b < (2::rat) ^ nat (bitlen a) / 2 ^ nat (bitlen b - 1)"
      by (rule frac_less) (use 1 2 a in simp_all)
    also have "\<dots> = 2 powi (bitlen a) / 2 powi (bitlen b - 1)"
      using pa pb by (simp add: power_int_def)
    also have "\<dots> = 2 powi (bitlen a - (bitlen b - 1))"
      by (simp only: power_int_diff [of "2::rat", OF disjI1] numeral_neq_zero
          not_False_eq_True)
    also have "bitlen a - (bitlen b - 1) = ?k + 1" by simp
    finally show ?thesis using e x by simp
  qed
qed

lemma fl_error:
  assumes "0 < x"
  shows "\<bar>fl x - x\<bar> \<le> x / 2 ^ 53"
proof -
  let ?e = "ilog2 x - 52"
  let ?P = "(2::rat) powi ?e"
  have P: "0 < ?P" by (simp add: zero_less_power_int)
  from assms have fl: "fl x = of_int (round_half_even (x / ?P)) * ?P"
    by (simp add: fl_def Let_def)
  have "\<bar>fl x - x\<bar> = \<bar>of_int (round_half_even (x / ?P)) - x / ?P\<bar> * ?P"
  proof -
    have "fl x - x = (of_int (round_half_even (x / ?P)) - x / ?P) * ?P"
      using P by (simp add: fl algebra_simps)
    then show ?thesis using P by (simp add: abs_mult)
  qed
  also have "\<dots> \<le> (1 / 2) * ?P"
    by (rule mult_right_mono [OF round_half_even_error]) (use P in simp)
  also have "\<dots> \<le> (1 / 2) * (x / 2 ^ 52)"
  proof -
    have "?P = 2 powi (ilog2 x) / 2 ^ 52"
      by (simp add: power_int_diff)
    also have "\<dots> \<le> x / 2 ^ 52"
      by (rule divide_right_mono [OF ilog2_lower [OF assms]]) simp
    finally show ?thesis by simp
  qed
  also have "\<dots> = x / 2 ^ 53" by simp
  finally show ?thesis .
qed

lemma fl_pos:
  assumes "0 < x"
  shows "0 < fl x"
proof -
  from fl_error [OF assms] have "x - x / 2 ^ 53 \<le> fl x" by linarith
  moreover have "x / 2 ^ 53 < x" using assms by (simp add: field_simps)
  ultimately show ?thesis by linarith
qed

lemma fl_nat_exact:
  assumes "n < 2 ^ 53"
  shows "fl (of_nat n) = of_nat n"
proof (cases "n = 0")
  case True
  then show ?thesis by (simp add: fl_def)
next
  case False
  let ?x = "of_nat n :: rat"
  have pos: "0 < ?x" using False by simp
  let ?e = "ilog2 ?x - 52"
  have "ilog2 ?x < 53"
  proof (rule ccontr)
    assume "\<not> ilog2 ?x < 53"
    then have "(2::rat) powi 53 \<le> 2 powi (ilog2 ?x)"
      by (intro power_int_increasing) simp_all
    also have "\<dots> \<le> ?x" by (rule ilog2_lower [OF pos])
    finally have "(2::rat) ^ 53 \<le> of_nat n" by simp
    then have "(2::nat) ^ 53 \<le> n"
      by (metis of_nat_le_iff of_nat_numeral of_nat_power)
    with assms show False by simp
  qed
  then have e: "?e \<le> 0" by simp
  have P: "(2::rat) powi ?e = 1 / 2 ^ nat (- ?e)"
    using e by (simp add: power_int_def field_simps)
  have "?x / 2 powi ?e = of_int (int n * 2 ^ nat (- ?e))"
    by (simp add: P)
  then have "round_half_even (?x / 2 powi ?e) = int n * 2 ^ nat (- ?e)"
    by (simp only: round_half_even_of_int)
  then show ?thesis using pos by (simp add: fl_def Let_def P)
qed

lemma scaled_width_error:
  assumes "0 < h" and "w < 2 ^ 31"
  shows "\<bar>fl (fl (of_nat w) * fl (1024 / of_nat h)) - 1024 * of_nat w / of_nat h\<bar>
           < 1 / of_nat h"
    and "0 \<le> fl (fl (of_nat w) * fl (1024 / of_nat h))"
proof -
  let ?u = "1 / 2 ^ 53 :: rat"
  let ?x = "1024 / of_nat h :: rat"
  let ?r = "fl ?x"
  let ?q = "1024 * of_nat w / of_nat h :: rat"
  let ?p = "fl (fl (of_nat w) * ?r)"
  have hpos: "(0::rat) < of_nat h" using assms(1) by simp
  have xpos: "0 < ?x" using hpos by simp
  have "w < 2 ^ 53"
  proof -
    have "(2::nat) ^ 31 \<le> 2 ^ 53" by simp
    with assms(2) show ?thesis by linarith
  qed
  then have W: "fl (of_nat w) = of_nat w" by (rule fl_nat_exact)
  have both: "\<bar>?p - ?q\<bar> < 1 / of_nat h \<and> 0 \<le> ?p"
  proof (cases "w = 0")
    case True
    then show ?thesis using hpos by (simp add: fl_def)
  next
    case False
    then have wpos: "(0::rat) < of_nat w" by simp
    have rpos: "0 < ?r" by (rule fl_pos [OF xpos])
    let ?y = "of_nat w * ?r :: rat"
    have ypos: "0 < ?y" using wpos rpos by simp
    have qpos: "0 < ?q" using wpos hpos by simp
    have r: "\<bar>?r - ?x\<bar> \<le> ?x * ?u" using fl_error [OF xpos] by simp
    have "\<bar>?y - ?q\<bar> = of_nat w * \<bar>?r - ?x\<bar>"
    proof -
      have "?y - ?q = of_nat w * (?r - ?x)" by (simp add: algebra_simps)
      then show ?thesis by (simp add: abs_mult)
    qed
    also have "\<dots> \<le> of_nat w * (?x * ?u)"
      by (rule mult_left_mono [OF r]) simp
    also have "\<dots> = ?q * ?u" by simp
    finally have yq: "\<bar>?y - ?q\<bar> \<le> ?q * ?u" .
    have py: "\<bar>?p - ?y\<bar> \<le> ?y * ?u" using fl_error [OF ypos] W by simp
    have u: "0 < ?u" "?u \<le> 1" by simp_all
    have y_le: "?y \<le> 2 * ?q"
    proof -
      from yq have "?y \<le> ?q + ?q * ?u" by linarith
      also have "?q * ?u \<le> ?q * 1"
        by (rule mult_left_mono [OF u(2)]) (use qpos in simp)
      finally show ?thesis by simp
    qed
    have "?y * ?u \<le> (2 * ?q) * ?u"
      by (rule mult_right_mono [OF y_le]) simp
    with py have py': "\<bar>?p - ?y\<bar> \<le> 2 * ?q * ?u" by linarith
    from py' yq have pq: "\<bar>?p - ?q\<bar> \<le> 3 * ?q * ?u" by linarith
    have "3 * ?q * ?u = (3072 * of_nat w / 2 ^ 53) / of_nat h" by simp
    also have "\<dots> < 1 / of_nat h"
    proof (rule divide_strict_right_mono [OF _ hpos])
      have "3072 * w < 2 ^ 53"
      proof -
        have "3072 * w < 3072 * 2 ^ 31" using assms(2) by simp
        also have "\<dots> \<le> (2::nat) ^ 53" by simp
        finally show ?thesis .
      qed
      then have "(of_nat (3072 * w) :: rat) < of_nat (2 ^ 53)"
        by (simp only: of_nat_less_iff)
      then have "(3072 * of_nat w :: rat) < 2 ^ 53" by simp
      then show "(3072 * of_nat w / 2 ^ 53 :: rat) < 1" by simp
    qed
    finally have small: "3 * ?q * ?u < 1 / of_nat h" .
    have "0 \<le> ?p" using fl_pos [OF ypos] W by simp
    with pq small show ?thesis by linarith
  qed
  from both show "\<bar>?p - ?q\<bar> < 1 / of_nat h" by simp
  from both show "0 \<le> ?p" by simp
qed

lemma floor_near_quotient:
  fixes p :: rat and N h :: nat
  assumes "0 < h" and "\<bar>p - of_nat N / of_nat h\<bar> < 1 / of_nat h"
  shows "\<not> h dvd N \<Longrightarrow> \<lfloor>p\<rfloor> = int (N div h)"
    and "h dvd N \<Longrightarrow> \<lfloor>p\<rfloor> = int (N div h) \<or> \<lfloor>p\<rfloor> = int (N div h) - 1"
proof -
  let ?n = "N div h" and ?m = "N mod h"
  have hpos: "(0::rat) < of_nat h" using assms(1) by simp
  have N: "(of_nat N :: rat) = of_nat ?n * of_nat h + of_nat ?m"
    by (metis div_mult_mod_eq of_nat_add of_nat_mult)
  have q: "(of_nat N / of_nat h :: rat) = of_nat ?n + of_nat ?m / of_nat h"
    using hpos by (simp add: N field_simps)
  from assms(2) have lo: "of_nat ?n + of_nat ?m / of_nat h - 1 / of_nat h < p"
    and hi: "p < of_nat ?n + of_nat ?m / of_nat h + 1 / of_nat h"
    unfolding q by linarith+
  {
    assume "\<not> h dvd N"
    then have m1: "1 \<le> ?m" by (simp add: dvd_eq_mod_eq_0 Suc_le_eq)
    have m2: "?m + 1 \<le> h" using assms(1) by (simp add: Suc_le_eq)
    have "(1::rat) \<le> of_nat ?m" using m1 by (metis of_nat_1 of_nat_le_iff)
    then have a: "(1::rat) / of_nat h \<le> of_nat ?m / of_nat h"
      by (rule divide_right_mono) (use hpos in simp)
    have "(of_nat (?m + 1) :: rat) \<le> of_nat h" using m2 by (simp only: of_nat_le_iff)
    then have "(of_nat ?m + 1) / of_nat h \<le> (of_nat h / of_nat h :: rat)"
      by (intro divide_right_mono) (use hpos in simp_all)
    then have b: "(of_nat ?m / of_nat h + 1 / of_nat h :: rat) \<le> 1"
      using hpos by (simp add: add_divide_distrib)
    from lo a have "of_int (int ?n) \<le> p" by simp
    moreover from hi b have "p < of_int (int ?n) + 1" by simp
    ultimately show "\<lfloor>p\<rfloor> = int ?n" by (rule floor_unique)
  }
  {
    assume "h dvd N"
    then have m0: "?m = 0" by (simp add: dvd_eq_mod_eq_0)
    have "(1::rat) \<le> of_nat h" using assms(1) by (metis Suc_leI of_nat_1 of_nat_le_iff One_nat_def)
    then have c: "(1::rat) / of_nat h \<le> 1" using hpos by (simp add: divide_le_eq)
    from lo m0 c have lo': "of_int (int ?n - 1) < p" by simp
    from hi m0 c have hi': "p < of_int (int ?n) + 1" by simp
    show "\<lfloor>p\<rfloor> = int ?n \<or> \<lfloor>p\<rfloor> = int ?n - 1"
    proof (cases "of_int (int ?n) \<le> p")
      case True
      then have "\<lfloor>p\<rfloor> = int ?n" using hi' by (rule floor_unique)
      then show ?thesis by simp
    next
      case False
      then have "p < of_int (int ?n - 1) + 1" by simp
      with lo' have "\<lfloor>p\<rfloor> = int ?n - 1" by (intro floor_unique) simp_all
      then show ?thesis by simp
    qed
  }
qed

lemma fl_ratio_842: "fl (512 / 421) = 2738530889802487 / 2251799813685248" by code_simp
lemma fl_595: "fl 595 = 595" by code_simp
lemma fl_prod_595: "fl (1629425879432479765 / 2251799813685248) = 1591236210383281 / 2199023255552"
  by code_simp
lemma fl_ratio_49: "fl (1024 / 49) = 5882252574524729 / 281474976710656" by code_simp
lemma fl_49: "fl 49 = 49" by code_simp
lemma fl_prod_49: "fl (288230376151711721 / 281474976710656) = 9007199254740991 / 8796093022208"
  by code_simp

lemma resized_a4_page: "resized_size (595, 842) = Inr (723, 1024)"
  by (simp add: resized_size_def Let_def py_int_def fl_ratio_842 fl_595 fl_prod_595
      floor_eq_iff)

lemma resized_49: "resized_size (49, 49) = Inr (1023, 1024)"
  by (simp add: resized_size_def Let_def py_int_def fl_ratio_49 fl_49 fl_prod_49 floor_eq_iff)

text \<open>
  Claim C6, as amended. The resize of a page is asked for the height 1024 and for the
  width \<^verbatim>\<open>int(img.width * (1024 / img.height))\<close>: the raster's own width scaled by
  1024 over its own height in double precision and truncated toward zero, not rounded to
  the nearest integer. For a raster of non-zero height and of width below \<open>2 ^ 31\<close>
  that width is the integer quotient of \<open>1024 * width\<close> by the height when the height
  does not divide \<open>1024 * width\<close>, and that quotient or one less when it does. The
  canvas of the presentation plays no part.
\<close>

theorem resize_uses_raster_dimensions:
  assumes "get_pixmap page d = Inr pix" and "0 < pix_height pix" and "pix_width pix < 2 ^ 31"
    and "page_to_slide E d t n s i page prs w = (Inr prs', w')"
  shows "\<exists>nw. resized_size (pix_width pix, pix_height pix) = Inr (nw, 1024)
    \<and> map image_size (shapes (last (slides prs'))) = [(nw, 1024)]
    \<and> nw = py_int (fl (fl (of_nat (pix_width pix)) * fl (1024 / of_nat (pix_height pix))))
    \<and> (\<not> pix_height pix dvd 1024 * pix_width pix \<longrightarrow>
          nw = int (1024 * pix_width pix div pix_height pix))
    \<and> (pix_height pix dvd 1024 * pix_width pix \<longrightarrow>
          nw = int (1024 * pix_width pix div pix_height pix)
          \<or> nw = int (1024 * pix_width pix div pix_height pix) - 1)"
proof -
  let ?w = "pix_width pix" and ?h = "pix_height pix"
  let ?p = "fl (fl (of_nat ?w) * fl (1024 / of_nat ?h))"
  let ?nw = "py_int ?p"
  note e = scaled_width_error [OF assms(2,3)]
  have nw: "?nw = \<lfloor>?p\<rfloor>" using e(2) by (simp add: py_int_def)
  have rs: "resized_size (?w, ?h) = Inr (?nw, 1024)"
    using assms(2) by (simp add: resized_size_def Let_def)
  have q: "\<bar>?p - of_nat (1024 * ?w) / of_nat ?h\<bar> < 1 / of_nat ?h"
    using e(1) by simp
  note f = floor_near_quotient [OF assms(2) q]
  from assms(1,4) rs have "map image_size (shapes (last (slides prs'))) = [(?nw, 1024)]"
    by (auto simp add: page_to_slide_def Let_def split: option.splits)
  with rs f nw show ?thesis by auto
qed

theorem resize_uses_raster_dimensions_witness:
  "get_pixmap a4_page (Some 300) = Inr \<lparr>pix_width = 595, pix_height = 842\<rparr>
   \<and> (0::nat) < 842 \<and> (595::nat) < 2 ^ 31 \<and> \<not> (842::nat) dvd 1024 * 595
   \<and> (\<exists>prs' w'. page_to_slide (deck_env [a4_page]) (Some 300) 1 1 1 0 a4_page Presentation
                     blank_world = (Inr prs', w')
          \<and> map image_size (shapes (last (slides prs'))) = [(723, 1024)])
   \<and> int (1024 * 595 div 842) = 723"
proof -
  let ?pix = "\<lparr>pix_width = 595, pix_height = 842\<rparr>"
  have h1: "get_pixmap a4_page (Some 300) = Inr ?pix" by (simp add: a4_page_def)
  have h2: "0 < pix_height ?pix" and h3: "pix_width ?pix < 2 ^ 31" by simp_all
  have "\<exists>prs' w'. page_to_slide (deck_env [a4_page]) (Some 300) 1 1 1 0 a4_page Presentation
          blank_world = (Inr prs', w')"
    by (simp add: page_to_slide_def Let_def a4_page_def resized_a4_page deck_env_def)
  then obtain prs' w' where r: "page_to_slide (deck_env [a4_page]) (Some 300) 1 1 1 0 a4_page
      Presentation blank_world = (Inr prs', w')" by blast
  have nd: "\<not> (842::nat) dvd 1024 * 595" by simp
  from resize_uses_raster_dimensions [OF h1 h2 h3 r] nd
  have "map image_size (shapes (last (slides prs'))) = [(723, 1024)]" by auto
  with r h1 nd show ?thesis by auto
qed

text \<open>
  Claim C6 as stated fails: a raster of 595 x 842 pixels is resized to the width 723,
  where \<open>595 * (1024 / 842)\<close>, about 723.6, rounds to 724; and a raster of 49 x 49
  pixels is resized to the width 1023, where \<open>49 * (1024 / 49)\<close> is 1024.
\<close>

theorem resize_truncates:
  "resized_size (595, 842) = Inr (723, 1024)
   \<and> round (595 * (1024 / 842) :: rat) = 724
   \<and> resized_size (49, 49) = Inr (1023, 1024)
   \<and> (49 * (1024 / 49) :: rat) = 1024"
  by (simp add: resized_a4_page resized_49 round_def floor_eq_iff)

subsection \<open>Input and output errors\<close>

text \<open>
  A missing input file, on a command line that neither lists the aspect ratios nor has
  invalid custom dimensions: the exit status is 1 and the only call made is the check of
  the input path.
\<close>

theorem missing_input_exits_1:
  assumes "\<not> list_aspects a"
    and "aspect a = ''custom'' \<Longrightarrow>
           (\<exists>x y. width a = Some x \<and> height a = Some y \<and> 0 < x \<and> 0 < y)"
    and "\<not> path_exists E (input_pdf a)"
  shows "fst (main E a w) = Inr 1
    \<and> trace (snd (main E a w)) = trace w @ [PathExists (input_pdf a)]
    \<and> tmp_dirs (snd (main E a w)) = tmp_dirs w
    \<and> pptx_files (snd (main E a w)) = pptx_files w"
  using assms
  by (auto simp add: main_def Let_def print_def write_stdout_def called_def)

theorem missing_input_exits_1_witness:
  "\<not> list_aspects (deck_args\<lparr>input_pdf := ''missing.pdf''\<rparr>)
   \<and> aspect (deck_args\<lparr>input_pdf := ''missing.pdf''\<rparr>) \<noteq> ''custom''
   \<and> \<not> path_exists (deck_env [good_page]) ''missing.pdf''
   \<and> fst (main (deck_env [good_page]) (deck_args\<lparr>input_pdf := ''missing.pdf''\<rparr>) blank_world)
       = Inr 1
   \<and> trace (snd (main (deck_env [good_page]) (deck_args\<lparr>input_pdf := ''missing.pdf''\<rparr>)
         blank_world)) = [PathExists ''missing.pdf'']"
proof -
  let ?a = "deck_args\<lparr>input_pdf := ''missing.pdf''\<rparr>"
  have h1: "\<not> list_aspects ?a" and h2: "aspect ?a \<noteq> ''custom''"
    and i: "input_pdf ?a = ''missing.pdf''"
    by (simp_all add: deck_args_def)
  have h3: "\<not> path_exists (deck_env [good_page]) (input_pdf ?a)"
    by (simp add: deck_env_def i)
  have b: "trace blank_world = []" by (simp add: blank_world_def)
  from missing_input_exits_1 [OF h1 _ h3, of blank_world] h1 h2 h3
  show ?thesis by (simp add: b i)
qed

text \<open>
  An error of the final write: when every page has been rendered and placed and saving
  the presentation raises, \<^verbatim>\<open>pdf_to_pptx\<close> ends with that exception, no presentation
  file exists and the scratch directory is removed.
\<close>

lemma convert_in_save_error:
  assumes "fitz_open E p = Inr pages" and "\<forall>page \<in> set pages. page_ok E d page"
    and "\<forall>f. png_save_error E f = None" and "pptx_save_error E out = Some e"
  shows "\<exists>w'. convert_in E p out canvas d s t w = (Inl e, w') \<and> pptx_files w' = pptx_files w"
proof -
  let ?w3 = "print (''PDF pages: '' @ str_nat (length pages))
               (called (FitzOpen p) (print (''Processing: '' @ path_name E p) w))"
  let ?prs = "Presentation\<lparr>slide_width := fst canvas, slide_height := snd canvas\<rparr>"
  have "snd ` set (enumerate 0 pages) = set pages"
    by (metis list.set_map map_snd_enumerate)
  with assms(2) have "\<forall>ip \<in> set (enumerate 0 pages). page_ok E d (snd ip)" by auto
  from process_pages_ok [OF assms(3) this, of t "length pages" s ?prs ?w3] obtain prs4 w4
    where loop: "process_pages E d t (length pages) s (enumerate 0 pages) ?prs ?w3
                   = (Inr prs4, w4)"
    by blast
  from process_pages_frame [OF loop] have "pptx_files w4 = pptx_files w"
    by (simp add: print_def write_stdout_def called_def)
  with assms(1,4) loop show ?thesis
    by (simp add: convert_in_def Let_def called_def)
qed

theorem write_error_fails_run:
  assumes "path_exists E p" and "fitz_open E p = Inr pages"
    and "\<forall>f. png_save_error E f = None" and "\<forall>f. pptx_save_error E f = Some e"
    and "\<forall>page \<in> set pages.
           page_ok E (case d of Some x \<Rightarrow> Some x | None \<Rightarrow> map_of quality_settings q) page"
  shows "fst (pdf_to_pptx E p outp ar cw ch q d m w) = Inl e
    \<and> pptx_files (snd (pdf_to_pptx E p outp ar cw ch q d m w)) = pptx_files w
    \<and> tmp_dirs (snd (pdf_to_pptx E p outp ar cw ch q d m w)) = tmp_dirs w"
proof -
  let ?d = "case d of Some x \<Rightarrow> Some x | None \<Rightarrow> map_of quality_settings q"
  let ?out = "case outp of
                Some p' \<Rightarrow> if p' \<noteq> [] then p' else with_suffix E p ''.pptx''
              | None \<Rightarrow> with_suffix E p ''.pptx''"
  let ?canvas = "(Inches (fst (get_slide_dimensions ar cw ch)),
                  Inches (snd (get_slide_dimensions ar cw ch)))"
  let ?w1 = "called (PathExists p) w"
  have eq: "pdf_to_pptx E p outp ar cw ch q d m w = convert_scoped E p ?out ?canvas ?d Suc ?w1"
    by (rule pdf_to_pptx_scoped [OF assms(1)])
  obtain r1 w1 where body: "with_temp_dir (convert_in E p ?out ?canvas ?d Suc) ?w1 = (r1, w1)"
    by (cases "with_temp_dir (convert_in E p ?out ?canvas ?d Suc) ?w1")
  from with_temp_dir_convert_in(3) [OF body] obtain w0
    where inner: "convert_in E p ?out ?canvas ?d Suc (fresh_tmp ?w1) (mkdtemp (fresh_tmp ?w1) ?w1)
                    = (r1, w0)"
      and files: "pptx_files w1 = pptx_files w0" by blast
  from assms(4) have save: "pptx_save_error E ?out = Some e" by simp
  from convert_in_save_error [OF assms(2) assms(5) assms(3) save, of ?canvas Suc
      "fresh_tmp ?w1" "mkdtemp (fresh_tmp ?w1) ?w1"] inner
  have "r1 = Inl e" and "pptx_files w0 = pptx_files w"
    by (auto simp add: mkdtemp_def called_def)
  with body files have "fst (convert_scoped E p ?out ?canvas ?d Suc ?w1) = Inl e"
    and "pptx_files (snd (convert_scoped E p ?out ?canvas ?d Suc ?w1)) = pptx_files w"
    by (simp_all add: convert_scoped_def)
  moreover have "tmp_dirs (snd (convert_scoped E p ?out ?canvas ?d Suc ?w1)) = tmp_dirs w"
    by (simp add: convert_scoped_frame(1) called_def)
  ultimately show ?thesis unfolding eq by simp
qed

theorem write_error_fails_run_witness:
  "path_exists (deck_env [good_page]\<lparr>pptx_save_error := \<lambda>f. Some (ExternalError ''disk full'')\<rparr>)
     ''deck.pdf''
   \<and> fst (pdf_to_pptx
            (deck_env [good_page]\<lparr>pptx_save_error := \<lambda>f. Some (ExternalError ''disk full'')\<rparr>)
            ''deck.pdf'' None ''4:3'' None None ''high'' None ''png'' blank_world)
       = Inl (ExternalError ''disk full'')
   \<and> pptx_files (snd (pdf_to_pptx
            (deck_env [good_page]\<lparr>pptx_save_error := \<lambda>f. Some (ExternalError ''disk full'')\<rparr>)
            ''deck.pdf'' None ''4:3'' None None ''high'' None ''png'' blank_world)) = []
   \<and> exit_status (fst (main
            (deck_env [good_page]\<lparr>pptx_save_error := \<lambda>f. Some (ExternalError ''disk full'')\<rparr>)
            deck_args blank_world)) = 1"
proof -
  let ?E = "deck_env [good_page]\<lparr>pptx_save_error := \<lambda>f. Some (ExternalError ''disk full'')\<rparr>"
  have h1: "path_exists ?E ''deck.pdf''" and h2: "fitz_open ?E ''deck.pdf'' = Inr [good_page]"
    and h3: "\<forall>f. png_save_error ?E f = None"
    and h4: "\<forall>f. pptx_save_error ?E f = Some (ExternalError ''disk full'')"
    by (simp_all add: deck_env_def)
  have h5: "\<forall>page \<in> set [good_page].
      page_ok ?E (case None of Some x \<Rightarrow> Some x | None \<Rightarrow> map_of quality_settings ''high'') page"
    by (simp add: page_ok_def good_page_def deck_env_def)
  have b: "pptx_files blank_world = []" by (simp add: blank_world_def)
  have m: "exit_status (fst (main ?E deck_args blank_world)) = 1"
    by (simp add: run_defs exit_status_def)
  from write_error_fails_run [OF h1 h2 h3 h4 h5, of None "''4:3''" None None "''png''" blank_world]
    h1 m
  show ?thesis by (simp add: b)
qed

end
